theory Spec2Isabelle
  imports Complex_Main
begin

section \<open>Camera calibration database: data model\<close>

text \<open>
  Shallow embedding of \<open>CameraCalibrationDatabase\<close> and its nested class \<open>GridNode\<close>
  (namespace \<open>StandardizedDiffuseAlbedoMaps\<close>).

  Modelling conventions.
  \<^item> C\# \<open>float\<close> values are modelled as \<open>real\<close>: rounding, infinities and NaN are abstracted
    away, so the model follows the code for positive shot parameters, up to rounding
    (\<open>Math.Log\<close> of a non-positive number is not a number, while \<open>ln\<close> is total).
    The constants \<open>float.MaxValue\<close> and \<open>1e-6f\<close> are the exact values of the
    single-precision numbers, \<open>(2^24 - 1) * 2^104\<close> and \<open>8796093 / 2^43\<close>.
  \<^item> \<open>GridNode\<close> objects live in a heap, a list of nodes in creation order; a reference to a
    node is its index, a nullable reference is a \<open>nat option\<close>.
  \<^item> A \<open>GridNode[2]\<close> array is a pair (slot 0, slot 1).
  \<^item> An exception is a value of type \<open>error\<close>; since C\# keeps the fields mutated before a
    throw, a method returns the error together with the state it leaves behind.
\<close>

datatype error =
    DatabasePathDoesNotExist
  | GridNodeAlreadyHasNeighbor
  | NullReferenceException
  | IndexOutOfRangeException
  | GridNotBuilt
  | GridNotPrepared

datatype axis = X | Y | Z

text \<open>
  The class \<open>CameraCalibration\<close> is not part of the sources at hand. Only the members the
  database reads are kept: the three shot parameters of \<open>m_CameraShotInfos\<close> and, for every
  probe of \<open>m_Reflectances\<close>, its \<open>m_LuminanceMeasured\<close>.
\<close>

record CameraCalibration =
  m_ISOSpeed :: real
  m_ShutterSpeed :: real
  m_Aperture :: real
  m_Reflectances :: "real list"

type_synonym neighbors = "nat option \<times> nat option"

record GridNode =
  m_CameraCalibration :: CameraCalibration
  m_EV_ISOSpeed :: real
  m_EV_ShutterSpeed :: real
  m_EV_Aperture :: real
  m_NeighborX :: neighbors
  m_NeighborY :: neighbors
  m_NeighborZ :: neighbors

definition REQUIRED_PROBES_COUNT :: nat where
  "REQUIRED_PROBES_COUNT = 6"

definition float_MaxValue :: real where
  "float_MaxValue = 340282346638528859811704183484516925440"

definition float_1em6 :: real where
  "float_1em6 = 8796093 / 8796093022208"

text \<open>Reading and writing a two-element neighbor array; the index is 0 or 1.\<close>

fun slot :: "neighbors \<Rightarrow> nat \<Rightarrow> nat option" where
  "slot (a, b) i = (if i = 0 then a else b)"

fun slot_update :: "neighbors \<Rightarrow> nat \<Rightarrow> nat option \<Rightarrow> neighbors" where
  "slot_update (a, b) i v = (if i = 0 then (v, b) else (a, v))"

fun neighbor :: "axis \<Rightarrow> GridNode \<Rightarrow> neighbors" where
  "neighbor X n = m_NeighborX n"
| "neighbor Y n = m_NeighborY n"
| "neighbor Z n = m_NeighborZ n"

fun neighbor_update :: "axis \<Rightarrow> neighbors \<Rightarrow> GridNode \<Rightarrow> GridNode" where
  "neighbor_update X v n = n\<lparr>m_NeighborX := v\<rparr>"
| "neighbor_update Y v n = n\<lparr>m_NeighborY := v\<rparr>"
| "neighbor_update Z v n = n\<lparr>m_NeighborZ := v\<rparr>"

fun ev :: "axis \<Rightarrow> GridNode \<Rightarrow> real" where
  "ev X n = m_EV_ISOSpeed n"
| "ev Y n = m_EV_ShutterSpeed n"
| "ev Z n = m_EV_Aperture n"

text \<open>\<open>GridNode.EV\<close>, \<open>GridNode.Convert2EV\<close>, the constructor and \<open>GridNode.SqDistance\<close>.\<close>

definition EV :: "GridNode \<Rightarrow> real" where
  "EV n = m_EV_ISOSpeed n + m_EV_ShutterSpeed n + m_EV_Aperture n"

definition Convert2EV :: "real \<Rightarrow> real \<Rightarrow> real \<Rightarrow> real \<times> real \<times> real" where
  "Convert2EV ISOSpeed ShutterSpeed Aperture =
     (ln (ISOSpeed / 100) / ln 2, ln ShutterSpeed / ln 2, - ln Aperture / ln 2)"

definition new_GridNode :: "CameraCalibration \<Rightarrow> GridNode" where
  "new_GridNode cc =
     (case Convert2EV (m_ISOSpeed cc) (m_ShutterSpeed cc) (m_Aperture cc) of
        (ex, ey, ez) \<Rightarrow>
          \<lparr>m_CameraCalibration = cc,
           m_EV_ISOSpeed = ex, m_EV_ShutterSpeed = ey, m_EV_Aperture = ez,
           m_NeighborX = (None, None), m_NeighborY = (None, None), m_NeighborZ = (None, None)\<rparr>)"

definition SqDistance :: "GridNode \<Rightarrow> GridNode \<Rightarrow> real" where
  "SqDistance this node =
     (let Delta_ISOSpeed = m_EV_ISOSpeed node - m_EV_ISOSpeed this;
          Delta_ShutterSpeed = m_EV_ShutterSpeed node - m_EV_ShutterSpeed this;
          Delta_Aperture = m_EV_Aperture node - m_EV_Aperture this
      in Delta_ISOSpeed * Delta_ISOSpeed + Delta_ShutterSpeed * Delta_ShutterSpeed
         + Delta_Aperture * Delta_Aperture)"

section \<open>Building the calibration grid (setter of \<open>DatabasePath\<close>)\<close>

subsection \<open>Collecting the calibration files\<close>

text \<open>
  One pass of the \<open>foreach\<close> over the calibration files. A file is \<open>None\<close> when
  \<open>CameraCalibration.Load\<close> throws, otherwise the calibration it holds; both that failure and
  a wrong number of probes are caught and reported in the error log. The state of the pass is
  \<open>m_RootNode\<close>, the list \<open>CameraCalibrations\<close>, the heap, the list \<open>GridNodes\<close> of references
  and \<open>m_ErrorLog\<close>.
\<close>

datatype log_entry = FailedToLoadFile | DatabaseIsEmpty

type_synonym collect_state =
  "nat option \<times> CameraCalibration list \<times> GridNode list \<times> nat list \<times> log_entry list"

fun collect_file :: "CameraCalibration option \<Rightarrow> collect_state \<Rightarrow> collect_state" where
  "collect_file None (RootNode, ccs, heap, GridNodes, ErrorLog) =
     (RootNode, ccs, heap, GridNodes, ErrorLog @ [FailedToLoadFile])"
| "collect_file (Some CC) (RootNode, ccs, heap, GridNodes, ErrorLog) =
     (if length (m_Reflectances CC) \<noteq> REQUIRED_PROBES_COUNT
      then (RootNode, ccs, heap, GridNodes, ErrorLog @ [FailedToLoadFile])
      else
        let Node = new_GridNode CC;
            RootNode' = (case RootNode of
                           None \<Rightarrow> Some (length heap)
                         | Some r \<Rightarrow> if EV Node < EV (heap ! r) then Some (length heap) else Some r)
        in (RootNode', ccs @ [CC], heap @ [Node], GridNodes @ [length heap], ErrorLog))"

definition collect_files :: "CameraCalibration option list \<Rightarrow> collect_state \<Rightarrow> collect_state" where
  "collect_files CalibrationFiles st = fold collect_file CalibrationFiles st"

subsection \<open>Placing the nodes\<close>

text \<open>
  The two nested \<open>foreach\<close> loops looking for the closest (placed, unplaced) pair: a pair
  replaces the current best only when it is strictly closer, and the search starts from
  \<open>float.MaxValue\<close> with no pair.
\<close>

type_synonym best_pair = "real \<times> (nat \<times> nat) option"

definition scan_pair :: "GridNode list \<Rightarrow> nat \<Rightarrow> nat \<Rightarrow> best_pair \<Rightarrow> best_pair" where
  "scan_pair heap NodePlaced NodeUnPlaced best =
     (let d = SqDistance (heap ! NodePlaced) (heap ! NodeUnPlaced)
      in if d < fst best then (d, Some (NodePlaced, NodeUnPlaced)) else best)"

definition find_best_pair :: "GridNode list \<Rightarrow> nat list \<Rightarrow> nat list \<Rightarrow> best_pair" where
  "find_best_pair heap PlacedNodes GridNodes =
     fold (\<lambda>NodePlaced. fold (scan_pair heap NodePlaced) GridNodes) PlacedNodes
          (float_MaxValue, None)"

text \<open>
  The nested comparison choosing the axis and \<open>LeftRight\<close> from the three deltas
  (placed minus unplaced).
\<close>

definition choose_axis :: "real \<Rightarrow> real \<Rightarrow> real \<Rightarrow> axis \<times> nat" where
  "choose_axis DeltaX DeltaY DeltaZ =
     (if abs DeltaX > abs DeltaY then
        (if abs DeltaX > abs DeltaZ
         then (X, if DeltaX < 0 then 0 else 1)
         else (Z, if DeltaZ < 0 then 0 else 1))
      else
        (if abs DeltaY > abs DeltaZ
         then (Y, if DeltaY < 0 then 0 else 1)
         else (Z, if DeltaZ < 0 then 0 else 1)))"

definition pair_axis :: "GridNode list \<Rightarrow> nat \<Rightarrow> nat \<Rightarrow> axis \<times> nat" where
  "pair_axis heap PairPlaced PairUnPlaced =
     choose_axis
       (m_EV_ISOSpeed (heap ! PairPlaced) - m_EV_ISOSpeed (heap ! PairUnPlaced))
       (m_EV_ShutterSpeed (heap ! PairPlaced) - m_EV_ShutterSpeed (heap ! PairUnPlaced))
       (m_EV_Aperture (heap ! PairPlaced) - m_EV_Aperture (heap ! PairUnPlaced))"

text \<open>The assignment \<open>Axis[i] = target\<close> on the neighbor array of node \<open>n\<close>.\<close>

definition assign :: "nat \<Rightarrow> axis \<Rightarrow> nat \<Rightarrow> nat \<Rightarrow> GridNode list \<Rightarrow> GridNode list" where
  "assign n a i target heap =
     heap[n := neighbor_update a (slot_update (neighbor a (heap ! n)) i (Some target)) (heap ! n)]"

text \<open>
  One iteration of the \<open>while\<close> loop. Dereferencing the pair when no pair was found is the
  null-reference failure; an occupied slot on the placed node is the explicit throw. On
  success the unplaced node leaves \<open>GridNodes\<close>; \<open>PlacedNodes\<close> is not touched by the loop.
\<close>

definition place_step ::
  "GridNode list \<Rightarrow> nat list \<Rightarrow> nat list \<Rightarrow> error + (GridNode list \<times> nat list)" where
  "place_step heap PlacedNodes GridNodes =
     (case snd (find_best_pair heap PlacedNodes GridNodes) of
        None \<Rightarrow> Inl NullReferenceException
      | Some (PairPlaced, PairUnPlaced) \<Rightarrow>
          (case pair_axis heap PairPlaced PairUnPlaced of
             (a, LeftRight) \<Rightarrow>
               if slot (neighbor a (heap ! PairPlaced)) LeftRight \<noteq> None
               then Inl GridNodeAlreadyHasNeighbor
               else Inr (assign PairUnPlaced a (1 - LeftRight) PairPlaced
                           (assign PairPlaced a LeftRight PairUnPlaced heap),
                         remove1 PairUnPlaced GridNodes)))"

lemma fold_scan_pair_mem:
  "snd (fold (scan_pair heap p) G best) = Some (a, b) \<Longrightarrow>
   snd best = Some (a, b) \<or> (a = p \<and> b \<in> set G)"
proof (induction G arbitrary: best)
  case Nil
  then show ?case by simp
next
  case (Cons u G)
  from Cons.IH [OF Cons.prems [simplified]] show ?case
    by (auto simp: scan_pair_def Let_def split: if_splits)
qed

lemma fold_placed_mem:
  "snd (fold (\<lambda>p. fold (scan_pair heap p) G) P best) = Some (a, b) \<Longrightarrow>
   snd best = Some (a, b) \<or> (a \<in> set P \<and> b \<in> set G)"
proof (induction P arbitrary: best)
  case Nil
  then show ?case by simp
next
  case (Cons p P)
  from Cons.IH [OF Cons.prems [simplified]] show ?case
    by (auto dest: fold_scan_pair_mem)
qed

lemma find_best_pair_mem:
  "snd (find_best_pair heap P G) = Some (a, b) \<Longrightarrow> a \<in> set P \<and> b \<in> set G"
  unfolding find_best_pair_def by (drule fold_placed_mem) simp

lemma place_step_Inr:
  assumes "place_step heap P G = Inr (heap', G')"
  obtains p u a i where
    "snd (find_best_pair heap P G) = Some (p, u)" "p \<in> set P" "u \<in> set G"
    "pair_axis heap p u = (a, i)" "slot (neighbor a (heap ! p)) i = None"
    "heap' = assign u a (1 - i) p (assign p a i u heap)" "G' = remove1 u G"
proof -
  from assms obtain p u where pu: "snd (find_best_pair heap P G) = Some (p, u)"
    by (auto simp: place_step_def split: option.splits)
  obtain a i where ai: "pair_axis heap p u = (a, i)"
    by (cases "pair_axis heap p u")
  from assms pu ai have "slot (neighbor a (heap ! p)) i = None"
    "heap' = assign u a (1 - i) p (assign p a i u heap)" "G' = remove1 u G"
    by (auto simp: place_step_def split: if_splits)
  with pu ai find_best_pair_mem [OF pu] that show thesis by blast
qed

lemma place_step_length:
  "place_step heap P G = Inr (heap', G') \<Longrightarrow> length G' < length G"
  by (erule place_step_Inr) (auto simp: length_remove1 dest: length_pos_if_in_set)

text \<open>
  The \<open>while ( GridNodes.Count > 0 )\<close> loop. It ends without error when no unplaced node is
  left, and with the error of the first failing iteration otherwise; the heap returned is the
  one the loop leaves behind in either case.
\<close>

function build_loop ::
  "GridNode list \<Rightarrow> nat list \<Rightarrow> nat list \<Rightarrow> error option \<times> GridNode list" where
  "build_loop heap PlacedNodes GridNodes =
     (if GridNodes = [] then (None, heap)
      else (case place_step heap PlacedNodes GridNodes of
              Inl e \<Rightarrow> (Some e, heap)
            | Inr (heap', GridNodes') \<Rightarrow> build_loop heap' PlacedNodes GridNodes'))"
  by pat_completeness auto
termination
  by (relation "measure (\<lambda>(heap, PlacedNodes, GridNodes). length GridNodes)")
     (auto dest: place_step_length)

declare build_loop.simps [simp del]

subsection \<open>The database and the setter\<close>

text \<open>
  A directory is whether it exists and what loading each of its \<open>*.xml\<close> files gives.
  \<open>m_InterpolatedCalibration\<close> keeps the measured luminance of each probe of the
  interpolated calibration. \<open>GridNode_heap\<close> is the heap of the nodes the database can
  reach. In the setter, the branch without root after a calibration was accepted stands for
  the dereference of a null placed node; every accepted calibration sets the root when there
  is none, so the branch is never taken.
\<close>

datatype DirectoryInfo = DirectoryInfo (Exists: bool) (GetFiles: "CameraCalibration option list")

record CameraCalibrationDatabase =
  m_DatabasePath :: "DirectoryInfo option"
  m_ErrorLog :: "log_entry list"
  m_CameraClibrations :: "CameraCalibration list"
  m_RootNode :: "nat option"
  m_PreparedForISOSpeed :: real
  m_PreparedForShutterSpeed :: real
  m_PreparedForAperture :: real
  m_InterpolatedCalibration :: "real list option"
  GridNode_heap :: "GridNode list"

definition new_CameraCalibrationDatabase :: CameraCalibrationDatabase where
  "new_CameraCalibrationDatabase =
     \<lparr>m_DatabasePath = None, m_ErrorLog = [], m_CameraClibrations = [], m_RootNode = None,
      m_PreparedForISOSpeed = 0, m_PreparedForShutterSpeed = 0, m_PreparedForAperture = 0,
      m_InterpolatedCalibration = None, GridNode_heap = []\<rparr>"

definition clean_up :: "CameraCalibrationDatabase \<Rightarrow> CameraCalibrationDatabase" where
  "clean_up db =
     db\<lparr>m_CameraClibrations := [], m_PreparedForISOSpeed := 0, m_PreparedForShutterSpeed := 0,
        m_PreparedForAperture := 0, m_InterpolatedCalibration := None, m_RootNode := None,
        m_ErrorLog := [], GridNode_heap := []\<rparr>"

definition set_DatabasePath ::
  "DirectoryInfo option \<Rightarrow> CameraCalibrationDatabase \<Rightarrow> error option \<times> CameraCalibrationDatabase" where
  "set_DatabasePath val db0 =
     (let db1 = (if m_DatabasePath db0 \<noteq> None then clean_up db0 else db0);
          db2 = db1\<lparr>m_DatabasePath := val\<rparr>
      in case val of
           None \<Rightarrow> (None, db2)
         | Some dir \<Rightarrow>
             if \<not> Exists dir then (Some DatabasePathDoesNotExist, db2)
             else
               (case collect_files (GetFiles dir)
                       (m_RootNode db2, [], GridNode_heap db2, [], m_ErrorLog db2) of
                  (RootNode, ccs, nodes, GridNodes, ErrorLog) \<Rightarrow>
                    let db3 = db2\<lparr>m_RootNode := RootNode, m_ErrorLog := ErrorLog,
                                  m_CameraClibrations := ccs, GridNode_heap := nodes\<rparr>
                    in if length ccs = 0
                       then (None, db3\<lparr>m_ErrorLog := ErrorLog @ [DatabaseIsEmpty]\<rparr>)
                       else
                         (case RootNode of
                            None \<Rightarrow> (Some NullReferenceException, db3)
                          | Some r \<Rightarrow>
                              (case build_loop nodes [r] (remove1 r GridNodes) of
                                 (err, nodes') \<Rightarrow> (err, db3\<lparr>GridNode_heap := nodes'\<rparr>)))))"

definition IsValid :: "CameraCalibrationDatabase \<Rightarrow> bool" where
  "IsValid db = (m_RootNode db \<noteq> None)"

section \<open>Preparing and using the interpolated calibration\<close>

subsection \<open>\<open>FindStartNode\<close>\<close>

text \<open>
  The three \<open>while\<close> loops of \<open>FindStartNode\<close> are the same loop on the X, the Y and the Z
  members; \<open>walk\<close> is that loop for one axis. A loop that does not end has no result
  (\<open>None\<close>). The parameters are compared with the EV members of the nodes as they are.
\<close>

partial_function (option) walk :: "GridNode list \<Rightarrow> axis \<Rightarrow> real \<Rightarrow> nat \<Rightarrow> nat option" where
  "walk h a target Current =
     (if ev a (h ! Current) \<le> target \<and> slot (neighbor a (h ! Current)) 1 \<noteq> None
      then (case slot (neighbor a (h ! Current)) 1 of
              None \<Rightarrow> Some Current
            | Some Next \<Rightarrow>
                if ev a (h ! Next) > target then Some Current
                else walk h a target Next)
      else Some Current)"

definition FindStartNode :: "GridNode list \<Rightarrow> nat \<Rightarrow> real \<Rightarrow> real \<Rightarrow> real \<Rightarrow> nat option" where
  "FindStartNode h RootNode ISOSpeed ShutterSpeed Aperture =
     (case walk h X ISOSpeed RootNode of
        None \<Rightarrow> None
      | Some CurrentX \<Rightarrow>
          (case walk h Y ShutterSpeed CurrentX of
             None \<Rightarrow> None
           | Some CurrentY \<Rightarrow> walk h Z Aperture CurrentY))"

subsection \<open>The cell of 8 nodes and the interpolants\<close>

record Grid =
  Grid000 :: nat
  Grid100 :: nat
  Grid010 :: nat
  Grid001 :: nat
  Grid110 :: nat
  Grid011 :: nat
  Grid101 :: nat
  Grid111 :: nat

definition next_or_self :: "GridNode list \<Rightarrow> axis \<Rightarrow> nat \<Rightarrow> nat" where
  "next_or_self h a n = (case slot (neighbor a (h ! n)) 1 of Some m \<Rightarrow> m | None \<Rightarrow> n)"

definition build_Grid :: "GridNode list \<Rightarrow> nat \<Rightarrow> Grid" where
  "build_Grid h StartNode =
     (let g000 = StartNode;
          g100 = next_or_self h X StartNode;
          g010 = next_or_self h Y StartNode;
          g001 = next_or_self h Z StartNode;
          g110 = next_or_self h Y g100;
          g011 = next_or_self h Z g010;
          g101 = next_or_self h X g001;
          g111 = next_or_self h Z g110
      in \<lparr>Grid000 = g000, Grid100 = g100, Grid010 = g010, Grid001 = g001,
          Grid110 = g110, Grid011 = g011, Grid101 = g101, Grid111 = g111\<rparr>)"

definition interpolant :: "real \<Rightarrow> real \<Rightarrow> real \<Rightarrow> real" where
  "interpolant target lo hi = max 0 (min 1 ((target - lo) / max float_1em6 (hi - lo)))"

record interpolants =
  tX_x :: real
  tX_y :: real
  tX_z :: real
  tX_w :: real
  tY_x :: real
  tY_y :: real
  tZ :: real

definition compute_interpolants :: "GridNode list \<Rightarrow> Grid \<Rightarrow> real \<times> real \<times> real \<Rightarrow> interpolants" where
  "compute_interpolants h G EVt =
     (case EVt of (EVx, EVy, EVz) \<Rightarrow>
      let tXx = interpolant EVx (m_EV_ISOSpeed (h ! Grid000 G)) (m_EV_ISOSpeed (h ! Grid100 G));
          tXy = interpolant EVx (m_EV_ISOSpeed (h ! Grid010 G)) (m_EV_ISOSpeed (h ! Grid110 G));
          tXz = interpolant EVx (m_EV_ISOSpeed (h ! Grid001 G)) (m_EV_ISOSpeed (h ! Grid101 G));
          tXw = interpolant EVx (m_EV_ISOSpeed (h ! Grid011 G)) (m_EV_ISOSpeed (h ! Grid111 G));
          rXx = 1 - tXx; rXy = 1 - tXy; rXz = 1 - tXz; rXw = 1 - tXw;
          ShutterSpeedsXx = rXx * m_EV_ShutterSpeed (h ! Grid000 G) + tXx * m_EV_ShutterSpeed (h ! Grid100 G);
          ShutterSpeedsXy = rXy * m_EV_ShutterSpeed (h ! Grid010 G) + tXy * m_EV_ShutterSpeed (h ! Grid110 G);
          ShutterSpeedsXz = rXz * m_EV_ShutterSpeed (h ! Grid001 G) + tXz * m_EV_ShutterSpeed (h ! Grid101 G);
          ShutterSpeedsXw = rXw * m_EV_ShutterSpeed (h ! Grid011 G) + tXw * m_EV_ShutterSpeed (h ! Grid111 G);
          AperturesXx = rXx * m_EV_Aperture (h ! Grid000 G) + tXx * m_EV_Aperture (h ! Grid100 G);
          AperturesXy = rXy * m_EV_Aperture (h ! Grid010 G) + tXy * m_EV_Aperture (h ! Grid110 G);
          AperturesXz = rXz * m_EV_Aperture (h ! Grid001 G) + tXz * m_EV_Aperture (h ! Grid101 G);
          AperturesXw = rXw * m_EV_Aperture (h ! Grid011 G) + tXw * m_EV_Aperture (h ! Grid111 G);
          tYx = interpolant EVy ShutterSpeedsXx ShutterSpeedsXy;
          tYy = interpolant EVy ShutterSpeedsXz ShutterSpeedsXw;
          rYx = 1 - tYx; rYy = 1 - tYy;
          AperturesYx = rYx * AperturesXx + tYx * AperturesXy;
          AperturesYy = rYy * AperturesXz + tYy * AperturesXw;
          tZ' = interpolant EVz AperturesYx AperturesYy
      in \<lparr>tX_x = tXx, tX_y = tXy, tX_z = tXz, tX_w = tXw, tY_x = tYx, tY_y = tYy, tZ = tZ'\<rparr>)"

text \<open>
  Reading \<open>m_Reflectances[ProbeIndex].m_LuminanceMeasured\<close> of a node; \<open>None\<close> when the index
  is outside the array.
\<close>

definition LuminanceMeasured :: "GridNode list \<Rightarrow> nat \<Rightarrow> nat \<Rightarrow> real option" where
  "LuminanceMeasured h n ProbeIndex =
     (let probes = m_Reflectances (m_CameraCalibration (h ! n))
      in if ProbeIndex < length probes then Some (probes ! ProbeIndex) else None)"

text \<open>
  The body of the loop over the probes. All four interpolations on X use the first
  component of \<open>tX\<close>, as the source does.
\<close>

definition interpolate_probe :: "GridNode list \<Rightarrow> Grid \<Rightarrow> interpolants \<Rightarrow> nat \<Rightarrow> real option" where
  "interpolate_probe h G t ProbeIndex =
     (case LuminanceMeasured h (Grid000 G) ProbeIndex of None \<Rightarrow> None | Some L000 \<Rightarrow>
     (case LuminanceMeasured h (Grid100 G) ProbeIndex of None \<Rightarrow> None | Some L100 \<Rightarrow>
     (case LuminanceMeasured h (Grid010 G) ProbeIndex of None \<Rightarrow> None | Some L010 \<Rightarrow>
     (case LuminanceMeasured h (Grid110 G) ProbeIndex of None \<Rightarrow> None | Some L110 \<Rightarrow>
     (case LuminanceMeasured h (Grid001 G) ProbeIndex of None \<Rightarrow> None | Some L001 \<Rightarrow>
     (case LuminanceMeasured h (Grid101 G) ProbeIndex of None \<Rightarrow> None | Some L101 \<Rightarrow>
     (case LuminanceMeasured h (Grid011 G) ProbeIndex of None \<Rightarrow> None | Some L011 \<Rightarrow>
     (case LuminanceMeasured h (Grid111 G) ProbeIndex of None \<Rightarrow> None | Some L111 \<Rightarrow>
        (let rXx = 1 - tX_x t; rYx = 1 - tY_x t; rYy = 1 - tY_y t; rZ = 1 - tZ t;
             L00 = rXx * L000 + tX_x t * L100;
             L10 = rXx * L010 + tX_x t * L110;
             L01 = rXx * L001 + tX_x t * L101;
             L11 = rXx * L011 + tX_x t * L111;
             L0 = rYx * L00 + tY_x t * L10;
             L1 = rYy * L01 + tY_y t * L11
         in Some (rZ * L0 + tZ t * L1))))))))))"

subsection \<open>\<open>PrepareCalibrationFor\<close>, \<open>IsPreparedFor\<close>, \<open>Calibrate\<close>\<close>

text \<open>
  \<open>PrepareCalibrationFor\<close> has no result (\<open>None\<close>) when \<open>FindStartNode\<close> does not return.
  Otherwise it returns the exception thrown, if any, and the database it leaves: the
  prepared-for members are written before anything else, and \<open>m_InterpolatedCalibration\<close>
  is replaced before the loop over the probes, which fills it probe after probe.
  \<open>FindStartNode\<close> receives the shot parameters themselves; their EV conversion is used for
  the interpolants only.
\<close>

definition PrepareCalibrationFor ::
  "real \<Rightarrow> real \<Rightarrow> real \<Rightarrow> CameraCalibrationDatabase \<Rightarrow>
   (error option \<times> CameraCalibrationDatabase) option" where
  "PrepareCalibrationFor ISOSpeed ShutterSpeed Aperture db =
     (case m_RootNode db of
        None \<Rightarrow> Some (Some GridNotBuilt, db)
      | Some r \<Rightarrow>
          let db1 = db\<lparr>m_PreparedForISOSpeed := ISOSpeed,
                       m_PreparedForShutterSpeed := ShutterSpeed,
                       m_PreparedForAperture := Aperture\<rparr>;
              EVt = Convert2EV ISOSpeed ShutterSpeed Aperture
          in (case FindStartNode (GridNode_heap db) r ISOSpeed ShutterSpeed Aperture of
                None \<Rightarrow> None
              | Some StartNode \<Rightarrow>
                  let G = build_Grid (GridNode_heap db) StartNode;
                      t = compute_interpolants (GridNode_heap db) G EVt;
                      Ls = map (interpolate_probe (GridNode_heap db) G t) [0..<REQUIRED_PROBES_COUNT]
                  in if None \<in> set Ls
                     then Some (Some IndexOutOfRangeException,
                                db1\<lparr>m_InterpolatedCalibration :=
                                      Some (map the (takeWhile (\<lambda>L. L \<noteq> None) Ls))\<rparr>)
                     else Some (None, db1\<lparr>m_InterpolatedCalibration := Some (map the Ls)\<rparr>)))"

definition IsPreparedFor :: "real \<Rightarrow> real \<Rightarrow> real \<Rightarrow> CameraCalibrationDatabase \<Rightarrow> bool" where
  "IsPreparedFor ISOSpeed ShutterSpeed Aperture db =
     (abs (ISOSpeed - m_PreparedForISOSpeed db) < float_1em6
      \<and> abs (ShutterSpeed - m_PreparedForShutterSpeed db) < float_1em6
      \<and> abs (Aperture - m_PreparedForAperture db) < float_1em6)"

text \<open>
  \<open>Calibrate\<close>. The method \<open>CameraCalibration.Calibrate\<close> of the interpolated calibration is
  not part of the sources at hand; it is the parameter \<open>calibration_curve\<close>, applied to the
  interpolated probe luminances and the luminance to calibrate.
\<close>

definition Calibrate ::
  "(real list \<Rightarrow> real \<Rightarrow> real) \<Rightarrow> real \<Rightarrow> CameraCalibrationDatabase \<Rightarrow> error + real" where
  "Calibrate calibration_curve Luminance db =
     (if m_RootNode db = None then Inl GridNotBuilt
      else (case m_InterpolatedCalibration db of
              None \<Rightarrow> Inl GridNotPrepared
            | Some c \<Rightarrow> Inr (calibration_curve c Luminance)))"


section \<open>Worked databases\<close>

definition sample_A :: CameraCalibration where
  "sample_A = \<lparr>m_ISOSpeed = 100, m_ShutterSpeed = 1, m_Aperture = 1, m_Reflectances = [1, 2, 3, 4, 5, 6]\<rparr>"

definition sample_B :: CameraCalibration where
  "sample_B = \<lparr>m_ISOSpeed = 200, m_ShutterSpeed = 1, m_Aperture = 1, m_Reflectances = [7, 8, 9, 10, 11, 12]\<rparr>"

definition node_A :: GridNode where
  "node_A = \<lparr>m_CameraCalibration = sample_A, m_EV_ISOSpeed = 0, m_EV_ShutterSpeed = 0, m_EV_Aperture = 0,
     m_NeighborX = (None, None), m_NeighborY = (None, None), m_NeighborZ = (None, None)\<rparr>"

definition node_B :: GridNode where
  "node_B = \<lparr>m_CameraCalibration = sample_B, m_EV_ISOSpeed = 1, m_EV_ShutterSpeed = 0, m_EV_Aperture = 0,
     m_NeighborX = (None, None), m_NeighborY = (None, None), m_NeighborZ = (None, None)\<rparr>"

definition directory_AB :: DirectoryInfo where
  "directory_AB = DirectoryInfo True [Some sample_A, Some sample_B]"

definition heap_AB :: "GridNode list" where
  "heap_AB = [node_A\<lparr>m_NeighborX := (Some 1, None)\<rparr>, node_B\<lparr>m_NeighborX := (None, Some 0)\<rparr>]"

definition database_AB :: CameraCalibrationDatabase where
  "database_AB = snd (set_DatabasePath (Some directory_AB) new_CameraCalibrationDatabase)"

lemma new_GridNode_sample_A: "new_GridNode sample_A = node_A"
  by (simp add: new_GridNode_def Convert2EV_def sample_A_def node_A_def)

lemma new_GridNode_sample_B: "new_GridNode sample_B = node_B"
  by (simp add: new_GridNode_def Convert2EV_def sample_B_def node_B_def)

lemma collect_files_AB:
  "collect_files [Some sample_A, Some sample_B] (None, [], [], [], [])
     = (Some 0, [sample_A, sample_B], [node_A, node_B], [0, Suc 0], [])"
proof -
  have "length (m_Reflectances sample_A) = REQUIRED_PROBES_COUNT"
       "length (m_Reflectances sample_B) = REQUIRED_PROBES_COUNT"
    by (simp_all add: sample_A_def sample_B_def REQUIRED_PROBES_COUNT_def)
  moreover have "\<not> EV node_B < EV node_A"
    by (simp add: EV_def node_A_def node_B_def)
  ultimately show ?thesis
    by (simp add: collect_files_def Let_def new_GridNode_sample_A new_GridNode_sample_B)
qed

lemma place_step_AB:
  "place_step [node_A, node_B] [0] [Suc 0] = Inr (heap_AB, [])"
  by (simp add: place_step_def find_best_pair_def scan_pair_def SqDistance_def Let_def
      float_MaxValue_def pair_axis_def choose_axis_def assign_def node_A_def node_B_def heap_AB_def)

lemma build_loop_AB: "build_loop [node_A, node_B] [0] [Suc 0] = (None, heap_AB)"
  by (simp add: build_loop.simps [of _ _ "[Suc 0]"] build_loop.simps [of _ _ "[]"] place_step_AB)

lemma set_DatabasePath_AB:
  "set_DatabasePath (Some directory_AB) new_CameraCalibrationDatabase =
     (None, new_CameraCalibrationDatabase
              \<lparr>m_DatabasePath := Some directory_AB, m_RootNode := Some 0,
               m_CameraClibrations := [sample_A, sample_B], GridNode_heap := heap_AB\<rparr>)"
  by (simp add: set_DatabasePath_def new_CameraCalibrationDatabase_def directory_AB_def
      collect_files_AB build_loop_AB Let_def)

lemma database_AB_fields:
  "m_RootNode database_AB = Some 0" "GridNode_heap database_AB = heap_AB"
  "m_InterpolatedCalibration database_AB = None"
  unfolding database_AB_def set_DatabasePath_AB
  by (simp_all add: new_CameraCalibrationDatabase_def)

lemma heap_AB_nth:
  "heap_AB ! 0 = node_A\<lparr>m_NeighborX := (Some 1, None)\<rparr>"
  "heap_AB ! Suc 0 = node_B\<lparr>m_NeighborX := (None, Some 0)\<rparr>"
  by (simp_all add: heap_AB_def)

lemma FindStartNode_AB: "0 \<le> i \<Longrightarrow> 0 \<le> s \<Longrightarrow> 0 \<le> a \<Longrightarrow> FindStartNode heap_AB 0 i s a = Some 0"
  by (simp add: FindStartNode_def walk.simps heap_AB_nth node_A_def)

lemma build_Grid_AB:
  "build_Grid heap_AB 0 = \<lparr>Grid000 = 0, Grid100 = 0, Grid010 = 0, Grid001 = 0,
                            Grid110 = 0, Grid011 = 0, Grid101 = 0, Grid111 = 0\<rparr>"
  by (simp add: build_Grid_def next_or_self_def heap_AB_nth node_A_def)

lemma log2_three_halves: "1 / 2 \<le> ln (3 / 2 :: real) / ln 2"
proof -
  have "ln (2::real) \<le> ln ((3 / 2)\<^sup>2)"
    by (subst ln_le_cancel_iff) (simp_all add: power2_eq_square)
  also have "\<dots> = 2 * ln (3 / 2 :: real)"
    by (simp add: ln_realpow)
  finally show ?thesis
    by (simp add: field_simps)
qed

lemma interpolant_degenerate_above:
  "lo + float_1em6 \<le> target \<Longrightarrow> interpolant target lo lo = 1"
  by (simp add: interpolant_def float_1em6_def)

lemma tX_x_compute_interpolants:
  "tX_x (compute_interpolants h G (EVx, EVy, EVz)) =
     interpolant EVx (m_EV_ISOSpeed (h ! Grid000 G)) (m_EV_ISOSpeed (h ! Grid100 G))"
  by (simp add: compute_interpolants_def Let_def)

lemma Convert2EV_150: "Convert2EV 150 1 1 = (ln (3 / 2) / ln 2, 0, 0)"
  by (simp add: Convert2EV_def)

section \<open>Facts about the setter and \<open>PrepareCalibrationFor\<close>; claims C10 and C9\<close>

lemma collect_file_root:
  "collect_file f (r, ccs, h, G, l) = (r', ccs', h', G', l') \<Longrightarrow>
   (r' = None \<longleftrightarrow> r = None \<and> \<not> (\<exists>cc. f = Some cc \<and> length (m_Reflectances cc) = REQUIRED_PROBES_COUNT))"
  by (cases f) (auto simp: Let_def split: if_splits option.splits)

lemma collect_files_root:
  "collect_files fs (r, ccs, h, G, l) = (r', ccs', h', G', l') \<Longrightarrow>
   (r' = None \<longleftrightarrow>
      r = None \<and> \<not> (\<exists>cc. Some cc \<in> set fs \<and> length (m_Reflectances cc) = REQUIRED_PROBES_COUNT))"
proof (induction fs arbitrary: r ccs h G l)
  case Nil
  then show ?case by (simp add: collect_files_def)
next
  case (Cons f fs)
  obtain r1 ccs1 h1 G1 l1 where st: "collect_file f (r, ccs, h, G, l) = (r1, ccs1, h1, G1, l1)"
    by (metis prod_cases5)
  with Cons.prems have "collect_files fs (r1, ccs1, h1, G1, l1) = (r', ccs', h', G', l')"
    by (simp add: collect_files_def)
  from Cons.IH [OF this] collect_file_root [OF st] show ?case
    by auto
qed

lemma set_DatabasePath_new_fields:
  assumes "set_DatabasePath val new_CameraCalibrationDatabase = (e, db)"
  shows "m_PreparedForISOSpeed db = 0" "m_PreparedForShutterSpeed db = 0"
    "m_PreparedForAperture db = 0" "m_InterpolatedCalibration db = None"
  using assms
  by (auto simp: set_DatabasePath_def new_CameraCalibrationDatabase_def Let_def
      split: option.splits if_splits prod.splits)

lemma set_DatabasePath_new_root:
  assumes "set_DatabasePath (Some dir) new_CameraCalibrationDatabase = (e, db)" "Exists dir"
  shows "m_RootNode db = None \<longleftrightarrow>
     \<not> (\<exists>cc. Some cc \<in> set (GetFiles dir) \<and> length (m_Reflectances cc) = REQUIRED_PROBES_COUNT)"
proof -
  obtain r ccs h G l where c: "collect_files (GetFiles dir) (None, [], [], [], []) = (r, ccs, h, G, l)"
    by (metis prod_cases5)
  from assms c have "m_RootNode db = r"
    by (auto simp: set_DatabasePath_def new_CameraCalibrationDatabase_def Let_def
      split: option.splits if_splits prod.splits)
  with collect_files_root [OF c] show ?thesis by simp
qed

text \<open>
  Claim C10. On a database just built (the setter returned without exception and the
  database is valid) and on which \<open>PrepareCalibrationFor\<close> was never called,
  \<open>IsPreparedFor 0 0 0\<close> is true, because the prepared-for members start at zero, while
  \<open>Calibrate\<close> throws the not-prepared exception.
\<close>

theorem fresh_database_IsPreparedFor_zero:
  assumes "set_DatabasePath (Some dir) new_CameraCalibrationDatabase = (None, db)"
    and "IsValid db"
  shows "IsPreparedFor 0 0 0 db \<and> Calibrate calibration_curve Luminance db = Inl GridNotPrepared"
  using set_DatabasePath_new_fields [OF assms(1)] assms(2)
  by (simp add: IsPreparedFor_def Calibrate_def IsValid_def float_1em6_def)

text \<open>
  Witness for C10: the database of the two samples A and B.
\<close>

theorem fresh_database_IsPreparedFor_zero_witness:
  "set_DatabasePath (Some directory_AB) new_CameraCalibrationDatabase = (None, database_AB)
   \<and> IsValid database_AB
   \<and> IsPreparedFor 0 0 0 database_AB
   \<and> Calibrate (\<lambda>c L. L) 1 database_AB = Inl GridNotPrepared"
proof -
  have 1: "set_DatabasePath (Some directory_AB) new_CameraCalibrationDatabase = (None, database_AB)"
    unfolding database_AB_def set_DatabasePath_AB by simp
  have 2: "IsValid database_AB"
    by (simp add: IsValid_def database_AB_fields)
  from fresh_database_IsPreparedFor_zero [OF 1 2] 1 2 show ?thesis by simp
qed

lemma PrepareCalibrationFor_GridNotBuilt_iff:
  "(\<exists>db'. PrepareCalibrationFor ISOSpeed ShutterSpeed Aperture db = Some (Some GridNotBuilt, db'))
     \<longleftrightarrow> m_RootNode db = None"
  by (auto simp: PrepareCalibrationFor_def Let_def split: option.splits if_splits)

lemma PrepareCalibrationFor_no_root:
  "m_RootNode db = None \<Longrightarrow>
   PrepareCalibrationFor ISOSpeed ShutterSpeed Aperture db = Some (Some GridNotBuilt, db)"
  by (simp add: PrepareCalibrationFor_def)

text \<open>
  Claim C9 (amended). In the state the setter leaves behind, whether it returned or threw,
  \<open>PrepareCalibrationFor\<close> throws the not-built exception exactly when no root node is
  set, which is exactly when no file gave a calibration with the required number of probes;
  it then leaves the database unchanged. When a root is set and \<open>PrepareCalibrationFor\<close>
  has not been called, \<open>Calibrate\<close> throws the not-prepared exception. Both are returned
  to the caller at once.
\<close>

theorem GridNotBuilt_iff_no_root_GridNotPrepared_after_construction:
  assumes "set_DatabasePath (Some dir) new_CameraCalibrationDatabase = (e, db)" and "Exists dir"
  shows "((\<exists>db'. PrepareCalibrationFor ISOSpeed ShutterSpeed Aperture db = Some (Some GridNotBuilt, db'))
           \<longleftrightarrow> m_RootNode db = None)
       \<and> (m_RootNode db = None \<longleftrightarrow>
            \<not> (\<exists>cc. Some cc \<in> set (GetFiles dir) \<and> length (m_Reflectances cc) = REQUIRED_PROBES_COUNT))
       \<and> (m_RootNode db = None \<longrightarrow>
            PrepareCalibrationFor ISOSpeed ShutterSpeed Aperture db = Some (Some GridNotBuilt, db))
       \<and> (m_RootNode db \<noteq> None \<longrightarrow> Calibrate calibration_curve Luminance db = Inl GridNotPrepared)"
  using set_DatabasePath_new_fields(4) [OF assms(1)] set_DatabasePath_new_root [OF assms]
    PrepareCalibrationFor_GridNotBuilt_iff [of ISOSpeed ShutterSpeed Aperture db]
    PrepareCalibrationFor_no_root [of db ISOSpeed ShutterSpeed Aperture]
  by (simp add: Calibrate_def)


lemma new_GridNode_fields:
  "m_CameraCalibration (new_GridNode cc) = cc"
  "m_NeighborX (new_GridNode cc) = (None, None)"
  "m_NeighborY (new_GridNode cc) = (None, None)"
  "m_NeighborZ (new_GridNode cc) = (None, None)"
  "m_EV_ISOSpeed (new_GridNode cc) = ln (m_ISOSpeed cc / 100) / ln 2"
  "m_EV_ShutterSpeed (new_GridNode cc) = ln (m_ShutterSpeed cc) / ln 2"
  "m_EV_Aperture (new_GridNode cc) = - ln (m_Aperture cc) / ln 2"
  by (simp_all add: new_GridNode_def Convert2EV_def)

definition same_shot :: "CameraCalibration \<Rightarrow> CameraCalibration \<Rightarrow> bool" where
  "same_shot c c' \<longleftrightarrow>
     m_ISOSpeed c' = m_ISOSpeed c \<and> m_ShutterSpeed c' = m_ShutterSpeed c \<and> m_Aperture c' = m_Aperture c"

lemma place_step_coincident_first:
  assumes "m_EV_ISOSpeed n2 = m_EV_ISOSpeed n1" "m_EV_ShutterSpeed n2 = m_EV_ShutterSpeed n1"
    "m_EV_Aperture n2 = m_EV_Aperture n1"
    "m_EV_ISOSpeed n3 = m_EV_ISOSpeed n1" "m_EV_ShutterSpeed n3 = m_EV_ShutterSpeed n1"
    "m_EV_Aperture n3 = m_EV_Aperture n1"
    "m_NeighborZ n1 = (None, None)"
  shows "place_step [n1, n2, n3] [0] [Suc 0, 2] =
     Inr ([n1\<lparr>m_NeighborZ := (None, Some (Suc 0))\<rparr>,
           n2\<lparr>m_NeighborZ := slot_update (m_NeighborZ n2) 0 (Some 0)\<rparr>, n3], [2])"
  using assms
  by (simp add: place_step_def find_best_pair_def scan_pair_def SqDistance_def Let_def
      float_MaxValue_def pair_axis_def choose_axis_def assign_def)

lemma place_step_coincident_second:
  assumes "m_EV_ISOSpeed n3 = m_EV_ISOSpeed n1" "m_EV_ShutterSpeed n3 = m_EV_ShutterSpeed n1"
    "m_EV_Aperture n3 = m_EV_Aperture n1"
    "m_NeighborZ n1 = (None, Some k)"
  shows "place_step [n1, n2, n3] [0] [2] = Inl GridNodeAlreadyHasNeighbor"
  using assms
  by (simp add: place_step_def find_best_pair_def scan_pair_def SqDistance_def Let_def
      float_MaxValue_def pair_axis_def choose_axis_def)

lemma build_loop_three_coincident:
  assumes "m_EV_ISOSpeed n2 = m_EV_ISOSpeed n1" "m_EV_ShutterSpeed n2 = m_EV_ShutterSpeed n1"
    "m_EV_Aperture n2 = m_EV_Aperture n1"
    "m_EV_ISOSpeed n3 = m_EV_ISOSpeed n1" "m_EV_ShutterSpeed n3 = m_EV_ShutterSpeed n1"
    "m_EV_Aperture n3 = m_EV_Aperture n1"
    "m_NeighborZ n1 = (None, None)"
  shows "build_loop [n1, n2, n3] [0] [Suc 0, 2] =
     (Some GridNodeAlreadyHasNeighbor,
      [n1\<lparr>m_NeighborZ := (None, Some (Suc 0))\<rparr>,
       n2\<lparr>m_NeighborZ := slot_update (m_NeighborZ n2) 0 (Some 0)\<rparr>, n3])"
proof -
  let ?h = "[n1\<lparr>m_NeighborZ := (None, Some (Suc 0))\<rparr>,
             n2\<lparr>m_NeighborZ := slot_update (m_NeighborZ n2) 0 (Some 0)\<rparr>, n3]"
  have "place_step ?h [0] [2] = Inl GridNodeAlreadyHasNeighbor"
    by (rule place_step_coincident_second [where k = "Suc 0"]) (simp_all add: assms)
  then have "build_loop ?h [0] [2] = (Some GridNodeAlreadyHasNeighbor, ?h)"
    by (subst build_loop.simps) simp
  then show ?thesis
    by (subst build_loop.simps) (simp add: place_step_coincident_first [OF assms])
qed

lemma collect_files_three_coincident:
  assumes "length (m_Reflectances c1) = REQUIRED_PROBES_COUNT"
    "length (m_Reflectances c2) = REQUIRED_PROBES_COUNT"
    "length (m_Reflectances c3) = REQUIRED_PROBES_COUNT"
    "same_shot c1 c2" "same_shot c1 c3"
  shows "collect_files [Some c1, Some c2, Some c3] (None, [], [], [], []) =
     (Some 0, [c1, c2, c3], [new_GridNode c1, new_GridNode c2, new_GridNode c3], [0, Suc 0, 2], [])"
  using assms
  by (simp add: collect_files_def Let_def EV_def new_GridNode_fields same_shot_def)

text \<open>
  Three calibrations with the same shot parameters, alone in a directory: the third one
  finds slot 1 of the Z neighbors of the root taken by the second.
\<close>

lemma three_coincident_samples_GridNodeAlreadyHasNeighbor:
  assumes "length (m_Reflectances c1) = REQUIRED_PROBES_COUNT"
    "length (m_Reflectances c2) = REQUIRED_PROBES_COUNT"
    "length (m_Reflectances c3) = REQUIRED_PROBES_COUNT"
    "same_shot c1 c2" "same_shot c1 c3"
  shows "fst (set_DatabasePath (Some (DirectoryInfo True [Some c1, Some c2, Some c3]))
                new_CameraCalibrationDatabase) = Some GridNodeAlreadyHasNeighbor"
proof -
  have "build_loop [new_GridNode c1, new_GridNode c2, new_GridNode c3] [0] [Suc 0, 2] =
     (Some GridNodeAlreadyHasNeighbor,
      [(new_GridNode c1)\<lparr>m_NeighborZ := (None, Some (Suc 0))\<rparr>,
       (new_GridNode c2)\<lparr>m_NeighborZ := slot_update (m_NeighborZ (new_GridNode c2)) 0 (Some 0)\<rparr>,
       new_GridNode c3])"
    using assms(4,5)
    by (intro build_loop_three_coincident) (simp_all add: new_GridNode_fields same_shot_def)
  then show ?thesis
    by (simp add: set_DatabasePath_def new_CameraCalibrationDatabase_def Let_def
        collect_files_three_coincident [OF assms])
qed


definition Grid_nodes :: "Grid \<Rightarrow> nat list" where
  "Grid_nodes G = [Grid000 G, Grid100 G, Grid010 G, Grid001 G, Grid110 G, Grid011 G, Grid101 G, Grid111 G]"

definition has_probes :: "GridNode list \<Rightarrow> nat \<Rightarrow> bool" where
  "has_probes h n \<longleftrightarrow> length (m_Reflectances (m_CameraCalibration (h ! n))) = REQUIRED_PROBES_COUNT"

lemma LuminanceMeasured_Some:
  "has_probes h n \<Longrightarrow> ProbeIndex < REQUIRED_PROBES_COUNT \<Longrightarrow>
   LuminanceMeasured h n ProbeIndex = Some (m_Reflectances (m_CameraCalibration (h ! n)) ! ProbeIndex)"
  by (simp add: LuminanceMeasured_def has_probes_def)

lemma interpolate_probe_Some:
  assumes "list_all (has_probes h) (Grid_nodes G)" "ProbeIndex < REQUIRED_PROBES_COUNT"
  shows "interpolate_probe h G t ProbeIndex \<noteq> None"
  using assms
  by (simp add: interpolate_probe_def Grid_nodes_def LuminanceMeasured_Some Let_def)

lemma PrepareCalibrationFor_returns:
  assumes "m_RootNode db = Some r"
    and "FindStartNode (GridNode_heap db) r ISOSpeed ShutterSpeed Aperture = Some StartNode"
    and "list_all (has_probes (GridNode_heap db)) (Grid_nodes (build_Grid (GridNode_heap db) StartNode))"
  shows "PrepareCalibrationFor ISOSpeed ShutterSpeed Aperture db =
           Some (None, db\<lparr>m_PreparedForISOSpeed := ISOSpeed,
                            m_PreparedForShutterSpeed := ShutterSpeed,
                            m_PreparedForAperture := Aperture,
                            m_InterpolatedCalibration :=
                              Some (map (the \<circ> interpolate_probe (GridNode_heap db)
                                     (build_Grid (GridNode_heap db) StartNode)
                                     (compute_interpolants (GridNode_heap db)
                                        (build_Grid (GridNode_heap db) StartNode)
                                        (Convert2EV ISOSpeed ShutterSpeed Aperture)))
                                   [0..<REQUIRED_PROBES_COUNT])\<rparr>)"
proof -
  let ?h = "GridNode_heap db"
  let ?G = "build_Grid ?h StartNode"
  let ?t = "compute_interpolants ?h ?G (Convert2EV ISOSpeed ShutterSpeed Aperture)"
  have "None \<notin> set (map (interpolate_probe ?h ?G ?t) [0..<REQUIRED_PROBES_COUNT])"
  proof
    assume "None \<in> set (map (interpolate_probe ?h ?G ?t) [0..<REQUIRED_PROBES_COUNT])"
    then obtain i where "i < REQUIRED_PROBES_COUNT" "interpolate_probe ?h ?G ?t i = None"
      by force
    with interpolate_probe_Some [OF assms(3)] show False
      by blast
  qed
  then show ?thesis
    using assms(1,2) unfolding PrepareCalibrationFor_def Let_def by simp
qed

subsection \<open>Databases of coincident samples\<close>

definition directory_AA :: DirectoryInfo where
  "directory_AA = DirectoryInfo True [Some sample_A, Some sample_A]"

definition directory_AAA :: DirectoryInfo where
  "directory_AAA = DirectoryInfo True [Some sample_A, Some sample_A, Some sample_A]"

definition heap_AAA :: "GridNode list" where
  "heap_AAA = [node_A\<lparr>m_NeighborZ := (None, Some 1)\<rparr>, node_A\<lparr>m_NeighborZ := (Some 0, None)\<rparr>, node_A]"

definition database_AAA :: CameraCalibrationDatabase where
  "database_AAA = snd (set_DatabasePath (Some directory_AAA) new_CameraCalibrationDatabase)"

lemma sample_A_probes: "length (m_Reflectances sample_A) = REQUIRED_PROBES_COUNT"
  by (simp add: sample_A_def REQUIRED_PROBES_COUNT_def)

lemma set_DatabasePath_AA:
  "set_DatabasePath (Some directory_AA) new_CameraCalibrationDatabase =
     (None, new_CameraCalibrationDatabase
              \<lparr>m_DatabasePath := Some directory_AA, m_RootNode := Some 0,
               m_CameraClibrations := [sample_A, sample_A],
               GridNode_heap := [node_A\<lparr>m_NeighborZ := (None, Some 1)\<rparr>,
                                 node_A\<lparr>m_NeighborZ := (Some 0, None)\<rparr>]\<rparr>)"
proof -
  have c: "collect_files [Some sample_A, Some sample_A] (None, [], [], [], [])
     = (Some 0, [sample_A, sample_A], [node_A, node_A], [0, Suc 0], [])"
    by (simp add: collect_files_def Let_def new_GridNode_sample_A sample_A_probes)
  have p: "place_step [node_A, node_A] [0] [Suc 0] =
      Inr ([node_A\<lparr>m_NeighborZ := (None, Some 1)\<rparr>, node_A\<lparr>m_NeighborZ := (Some 0, None)\<rparr>], [])"
    by (simp add: place_step_def find_best_pair_def scan_pair_def SqDistance_def Let_def
      float_MaxValue_def pair_axis_def choose_axis_def assign_def node_A_def)
  have b: "build_loop [node_A, node_A] [0] [Suc 0] =
      (None, [node_A\<lparr>m_NeighborZ := (None, Some 1)\<rparr>, node_A\<lparr>m_NeighborZ := (Some 0, None)\<rparr>])"
    by (simp add: build_loop.simps [of _ _ "[Suc 0]"] build_loop.simps [of _ _ "[]"] p)
  show ?thesis
    by (simp add: set_DatabasePath_def new_CameraCalibrationDatabase_def directory_AA_def c b Let_def)
qed

lemma set_DatabasePath_AAA:
  "set_DatabasePath (Some directory_AAA) new_CameraCalibrationDatabase =
     (Some GridNodeAlreadyHasNeighbor,
      new_CameraCalibrationDatabase
        \<lparr>m_DatabasePath := Some directory_AAA, m_RootNode := Some 0,
         m_CameraClibrations := [sample_A, sample_A, sample_A], GridNode_heap := heap_AAA\<rparr>)"
proof -
  have c: "collect_files [Some sample_A, Some sample_A, Some sample_A] (None, [], [], [], [])
     = (Some 0, [sample_A, sample_A, sample_A], [node_A, node_A, node_A], [0, Suc 0, 2], [])"
    by (simp add: collect_files_def Let_def new_GridNode_sample_A sample_A_probes)
  have b: "build_loop [node_A, node_A, node_A] [0] [Suc 0, 2] = (Some GridNodeAlreadyHasNeighbor, heap_AAA)"
    by (subst build_loop_three_coincident) (simp_all add: node_A_def heap_AAA_def)
  show ?thesis
    by (simp add: set_DatabasePath_def new_CameraCalibrationDatabase_def directory_AAA_def c b Let_def)
qed

lemma database_AAA_fields:
  "m_RootNode database_AAA = Some 0" "GridNode_heap database_AAA = heap_AAA"
  unfolding database_AAA_def set_DatabasePath_AAA
  by (simp_all add: new_CameraCalibrationDatabase_def)

lemma heap_AAA_nth:
  "heap_AAA ! 0 = node_A\<lparr>m_NeighborZ := (None, Some 1)\<rparr>"
  "heap_AAA ! Suc 0 = node_A\<lparr>m_NeighborZ := (Some 0, None)\<rparr>"
  by (simp_all add: heap_AAA_def)

lemma FindStartNode_AAA: "FindStartNode heap_AAA 0 100 1 1 = Some (Suc 0)"
  by (simp add: FindStartNode_def walk.simps heap_AAA_nth node_A_def)

lemma build_Grid_AAA:
  "build_Grid heap_AAA (Suc 0) =
     \<lparr>Grid000 = Suc 0, Grid100 = Suc 0, Grid010 = Suc 0, Grid001 = Suc 0,
      Grid110 = Suc 0, Grid011 = Suc 0, Grid101 = Suc 0, Grid111 = Suc 0\<rparr>"
  by (simp add: build_Grid_def next_or_self_def heap_AAA_nth node_A_def)

text \<open>
  Claim C7 as stated fails: two coincident samples are built without exception, the second
  stored in slot 1 of the Z neighbors of the first.
\<close>

theorem two_coincident_samples_counterexample:
  "fst (set_DatabasePath (Some directory_AA) new_CameraCalibrationDatabase) = None
   \<and> m_RootNode (snd (set_DatabasePath (Some directory_AA) new_CameraCalibrationDatabase)) = Some 0
   \<and> map m_NeighborZ (GridNode_heap (snd (set_DatabasePath (Some directory_AA) new_CameraCalibrationDatabase)))
        = [(None, Some 1), (Some 0, None)]"
  unfolding set_DatabasePath_AA
  by (simp add: new_CameraCalibrationDatabase_def node_A_def)

text \<open>
  Claim C9 as stated fails: with three coincident samples the construction throws
  (the grid was not built successfully), the root stays set, and \<open>PrepareCalibrationFor\<close>
  then returns without any exception.
\<close>

theorem aborted_construction_PrepareCalibrationFor_counterexample:
  "fst (set_DatabasePath (Some directory_AAA) new_CameraCalibrationDatabase)
      = Some GridNodeAlreadyHasNeighbor
   \<and> map_option fst (PrepareCalibrationFor 100 1 1 database_AAA) = Some None"
proof -
  have "list_all (has_probes (GridNode_heap database_AAA))
          (Grid_nodes (build_Grid (GridNode_heap database_AAA) (Suc 0)))"
    by (simp add: database_AAA_fields build_Grid_AAA Grid_nodes_def has_probes_def heap_AAA_nth
        node_A_def sample_A_probes)
  moreover have "FindStartNode (GridNode_heap database_AAA) 0 100 1 1 = Some (Suc 0)"
    by (simp add: database_AAA_fields FindStartNode_AAA)
  ultimately have "map_option fst (PrepareCalibrationFor 100 1 1 database_AAA) = Some None"
    by (subst PrepareCalibrationFor_returns [OF database_AAA_fields(1)]) simp_all
  then show ?thesis
    by (simp add: set_DatabasePath_AAA)
qed

text \<open>
  Witness for C9: the database left by the aborted construction from three coincident
  samples.
\<close>

theorem GridNotBuilt_iff_no_root_witness:
  "set_DatabasePath (Some directory_AAA) new_CameraCalibrationDatabase
      = (Some GridNodeAlreadyHasNeighbor, database_AAA)
   \<and> Exists directory_AAA
   \<and> m_RootNode database_AAA \<noteq> None
   \<and> PrepareCalibrationFor 100 1 1 database_AAA \<noteq> Some (Some GridNotBuilt, database_AAA)
   \<and> Calibrate (\<lambda>c L. L) 1 database_AAA = Inl GridNotPrepared"
proof -
  have 1: "set_DatabasePath (Some directory_AAA) new_CameraCalibrationDatabase
      = (Some GridNodeAlreadyHasNeighbor, database_AAA)"
    unfolding database_AAA_def set_DatabasePath_AAA by simp
  have 2: "Exists directory_AAA" by (simp add: directory_AAA_def)
  from GridNotBuilt_iff_no_root_GridNotPrepared_after_construction [OF 1 2, of 100 1 1 "\<lambda>c L. L" 1]
  show ?thesis using 1 2 by (auto simp: database_AAA_fields)
qed

section \<open>Assignments to neighbor slots; claim C6\<close>

text \<open>
  The history of a construction: \<open>step_assignments\<close> are the two slots assigned by an
  iteration of the loop (the statements \<open>AxisPlaced[LeftRight] = PairUnPlaced\<close> and
  \<open>AxisUnPlaced[1-LeftRight] = PairPlaced\<close>), \<open>build_assignments\<close> collects them along
  the loop, in order, up to its end or to the iteration that throws.
\<close>

type_synonym slot_ref = "nat \<times> axis \<times> nat"

definition step_assignments :: "GridNode list \<Rightarrow> nat list \<Rightarrow> nat list \<Rightarrow> slot_ref list" where
  "step_assignments h PlacedNodes GridNodes =
     (case snd (find_best_pair h PlacedNodes GridNodes) of
        None \<Rightarrow> []
      | Some (PairPlaced, PairUnPlaced) \<Rightarrow>
          (case pair_axis h PairPlaced PairUnPlaced of
             (a, LeftRight) \<Rightarrow> [(PairPlaced, a, LeftRight), (PairUnPlaced, a, 1 - LeftRight)]))"

function build_assignments :: "GridNode list \<Rightarrow> nat list \<Rightarrow> nat list \<Rightarrow> slot_ref list" where
  "build_assignments h PlacedNodes GridNodes =
     (if GridNodes = [] then []
      else (case place_step h PlacedNodes GridNodes of
              Inl e \<Rightarrow> []
            | Inr (h', GridNodes') \<Rightarrow>
                step_assignments h PlacedNodes GridNodes @ build_assignments h' PlacedNodes GridNodes'))"
  by pat_completeness auto
termination
  by (relation "measure (\<lambda>(h, PlacedNodes, GridNodes). length GridNodes)")
     (auto dest: place_step_length)

declare build_assignments.simps [simp del]

definition construction_assignments :: "CameraCalibration option list \<Rightarrow> slot_ref list" where
  "construction_assignments CalibrationFiles =
     (case collect_files CalibrationFiles (None, [], [], [], []) of
        (RootNode, ccs, nodes, GridNodes, ErrorLog) \<Rightarrow>
          (case RootNode of
             None \<Rightarrow> []
           | Some r \<Rightarrow> build_assignments nodes [r] (remove1 r GridNodes)))"

definition slot_of :: "GridNode list \<Rightarrow> slot_ref \<Rightarrow> nat option" where
  "slot_of h s = (case s of (n, a, i) \<Rightarrow> slot (neighbor a (h ! n)) i)"

definition fresh_node :: "GridNode \<Rightarrow> bool" where
  "fresh_node n \<longleftrightarrow>
     m_NeighborX n = (None, None) \<and> m_NeighborY n = (None, None) \<and> m_NeighborZ n = (None, None)"

definition unplaced_fresh :: "GridNode list \<Rightarrow> nat list \<Rightarrow> nat list \<Rightarrow> bool" where
  "unplaced_fresh h P G \<longleftrightarrow>
     distinct G \<and> set P \<inter> set G = {} \<and> (\<forall>n \<in> set P \<union> set G. n < length h)
     \<and> (\<forall>u \<in> set G. fresh_node (h ! u))"

lemma length_assign [simp]: "length (assign n a i t h) = length h"
  by (simp add: assign_def)

lemma nth_assign_other: "n' \<noteq> n \<Longrightarrow> assign n a i t h ! n' = h ! n'"
  by (simp add: assign_def)

lemma neighbor_neighbor_update:
  "neighbor a' (neighbor_update a v n) = (if a' = a then v else neighbor a' n)"
  by (cases a; cases a') simp_all

lemma slot_slot_update:
  "slot (slot_update nb i v) i' = (if (i' = 0) = (i = 0) then v else slot nb i')"
  by (cases nb) auto

lemma slot_assign_same:
  "n < length h \<Longrightarrow>
   slot (neighbor a' (assign n a i t h ! n)) i' =
     (if a' = a \<and> (i' = 0) = (i = 0) then Some t else slot (neighbor a' (h ! n)) i')"
  by (auto simp: assign_def neighbor_neighbor_update slot_slot_update)

lemma slot_of_assign:
  "n < length h \<Longrightarrow>
   slot_of (assign n a i t h) (n', a', i') =
     (if n' = n \<and> a' = a \<and> (i' = 0) = (i = 0) then Some t else slot_of h (n', a', i'))"
  by (cases "n' = n") (auto simp: slot_of_def slot_assign_same nth_assign_other)

lemma fresh_node_slot: "fresh_node n \<Longrightarrow> slot (neighbor a n) i = None"
  by (cases a) (simp_all add: fresh_node_def)

lemma choose_axis_index: "snd (choose_axis dx dy dz) = 0 \<or> snd (choose_axis dx dy dz) = 1"
  by (simp add: choose_axis_def)

lemma pair_axis_index: "pair_axis h p u = (a, i) \<Longrightarrow> i = 0 \<or> i = 1"
  using choose_axis_index [of "m_EV_ISOSpeed (h ! p) - m_EV_ISOSpeed (h ! u)"
     "m_EV_ShutterSpeed (h ! p) - m_EV_ShutterSpeed (h ! u)"
     "m_EV_Aperture (h ! p) - m_EV_Aperture (h ! u)"]
  by (simp add: pair_axis_def)

lemma step_assignments_Inr:
  assumes "snd (find_best_pair h P G) = Some (p, u)" "pair_axis h p u = (a, i)"
  shows "step_assignments h P G = [(p, a, i), (u, a, 1 - i)]"
  using assms by (simp add: step_assignments_def)

lemma place_step_unplaced_fresh:
  assumes "place_step h P G = Inr (h', G')" "unplaced_fresh h P G"
  shows "unplaced_fresh h' P G'"
proof -
  from assms(1) obtain p u a i where s:
    "p \<in> set P" "u \<in> set G"
    "h' = assign u a (1 - i) p (assign p a i u h)" "G' = remove1 u G"
    by (rule place_step_Inr)
  from assms(2) have d: "distinct G" "set P \<inter> set G = {}" "\<forall>n \<in> set P \<union> set G. n < length h"
    "\<forall>u \<in> set G. fresh_node (h ! u)"
    by (simp_all add: unplaced_fresh_def)
  have "fresh_node (h' ! v)" if "v \<in> set G'" for v
  proof -
    from that s(4) d(1) have "v \<in> set G" "v \<noteq> u" by auto
    with d(2) s(1) have "v \<noteq> p" by auto
    with \<open>v \<noteq> u\<close> have "h' ! v = h ! v" by (simp add: s(3) nth_assign_other)
    with d(4) \<open>v \<in> set G\<close> show ?thesis by simp
  qed
  moreover have "distinct G'" "set P \<inter> set G' = {}" "\<forall>n \<in> set P \<union> set G'. n < length h'"
    using d s(3,4) by (auto dest: notin_set_remove1)
  ultimately show ?thesis by (simp add: unplaced_fresh_def)
qed

lemma place_step_assignments:
  assumes "place_step h P G = Inr (h', G')" "unplaced_fresh h P G"
  shows "distinct (step_assignments h P G)"
    and "\<forall>s \<in> set (step_assignments h P G). slot_of h s = None \<and> slot_of h' s \<noteq> None"
    and "slot_of h' s = None \<Longrightarrow> slot_of h s = None"
proof -
  from assms(1) obtain p u a i where s:
    "snd (find_best_pair h P G) = Some (p, u)" "p \<in> set P" "u \<in> set G"
    "pair_axis h p u = (a, i)" "slot (neighbor a (h ! p)) i = None"
    "h' = assign u a (1 - i) p (assign p a i u h)" "G' = remove1 u G"
    by (rule place_step_Inr)
  from assms(2) s(2,3) have d: "p \<noteq> u" "p < length h" "u < length h" "fresh_node (h ! u)"
    by (auto simp: unplaced_fresh_def)
  have sa: "step_assignments h P G = [(p, a, i), (u, a, 1 - i)]"
    using s(1,4) by (rule step_assignments_Inr)
  from pair_axis_index [OF s(4)] have i: "i = 0 \<or> i = 1" .
  show "distinct (step_assignments h P G)"
    using d(1) by (simp add: sa)
  have e: "slot_of h (p, a, i) = None" "slot_of h (u, a, 1 - i) = None"
    using s(5) d(4) by (simp_all add: slot_of_def fresh_node_slot)
  show "\<forall>s \<in> set (step_assignments h P G). slot_of h s = None \<and> slot_of h' s \<noteq> None"
    using d(1,2,3) e i by (auto simp: sa s(6) slot_of_assign)
  show "slot_of h' s = None \<Longrightarrow> slot_of h s = None"
    using d by (cases s) (auto simp: s(6) slot_of_assign split: if_splits)
qed

lemma build_assignments_distinct_empty:
  "unplaced_fresh h P G \<Longrightarrow>
   distinct (build_assignments h P G) \<and> (\<forall>s \<in> set (build_assignments h P G). slot_of h s = None)"
proof (induction h P G rule: build_assignments.induct)
  case (1 h P G)
  show ?case
  proof (cases "G = []")
    case True
    then show ?thesis by (simp add: build_assignments.simps)
  next
    case False
    show ?thesis
    proof (cases "place_step h P G")
      case (Inl e)
      with False show ?thesis by (simp add: build_assignments.simps)
    next
      case (Inr r)
      obtain h' G' where r: "r = (h', G')" by (cases r)
      with Inr have ps: "place_step h P G = Inr (h', G')" by simp
      have uf: "unplaced_fresh h' P G'"
        using ps "1.prems" by (rule place_step_unplaced_fresh)
      from "1.IH" [OF False ps refl uf]
      have ih: "distinct (build_assignments h' P G')"
        "\<forall>s \<in> set (build_assignments h' P G'). slot_of h' s = None"
        by simp_all
      have ba: "build_assignments h P G = step_assignments h P G @ build_assignments h' P G'"
        using False ps by (simp add: build_assignments.simps)
      note st = place_step_assignments [OF ps "1.prems"]
      have "set (step_assignments h P G) \<inter> set (build_assignments h' P G') = {}"
        using st(2) ih(2) by blast
      moreover have "\<forall>s \<in> set (build_assignments h' P G'). slot_of h s = None"
        using ih(2) st(3) by blast
      ultimately show ?thesis
        using st(1,2) ih(1) by (auto simp: ba)
    qed
  qed
qed


lemma place_step_keeps_slot:
  assumes "place_step h P G = Inr (h', G')" "unplaced_fresh h P G" "slot_of h s = Some v"
  shows "slot_of h' s = Some v"
proof -
  from assms(1) obtain p u a i where s:
    "p \<in> set P" "u \<in> set G" "slot (neighbor a (h ! p)) i = None"
    "h' = assign u a (1 - i) p (assign p a i u h)"
    by (rule place_step_Inr)
  from assms(2) s(1,2) have d: "p \<noteq> u" "p < length h" "u < length h" "fresh_node (h ! u)"
    by (auto simp: unplaced_fresh_def)
  obtain n' a' i' where [simp]: "s = (n', a', i')" by (cases s)
  have "\<not> (n' = u)"
    using assms(3) d(4) by (auto simp: slot_of_def fresh_node_slot)
  moreover have "\<not> (n' = p \<and> a' = a \<and> (i' = 0) = (i = 0))"
  proof
    assume *: "n' = p \<and> a' = a \<and> (i' = 0) = (i = 0)"
    then have "slot (neighbor a (h ! p)) i' = slot (neighbor a (h ! p)) i"
      by (cases "neighbor a (h ! p)") auto
    with * s(3) assms(3) show False by (simp add: slot_of_def)
  qed
  ultimately show ?thesis
    using assms(3) d by (auto simp: s(4) slot_of_assign)
qed

lemma build_loop_keeps_slot:
  "unplaced_fresh h P G \<Longrightarrow> build_loop h P G = (e, hf) \<Longrightarrow> slot_of h s = Some v \<Longrightarrow>
   slot_of hf s = Some v"
proof (induction h P G rule: build_loop.induct)
  case (1 h P G)
  show ?case
  proof (cases "G = []")
    case True
    with "1.prems" show ?thesis by (simp add: build_loop.simps)
  next
    case False
    show ?thesis
    proof (cases "place_step h P G")
      case (Inl err)
      with False "1.prems" show ?thesis by (simp add: build_loop.simps)
    next
      case (Inr r)
      obtain h' G' where r: "r = (h', G')" by (cases r)
      with Inr have ps: "place_step h P G = Inr (h', G')" by simp
      have "build_loop h' P G' = (e, hf)"
        using "1.prems"(2) False ps by (simp add: build_loop.simps)
      moreover have "unplaced_fresh h' P G'"
        using ps "1.prems"(1) by (rule place_step_unplaced_fresh)
      moreover have "slot_of h' s = Some v"
        using ps "1.prems"(1,3) by (rule place_step_keeps_slot)
      ultimately show ?thesis
        using "1.IH" [OF False ps refl] by blast
    qed
  qed
qed

definition collected :: "collect_state \<Rightarrow> bool" where
  "collected st =
     (case st of (RootNode, ccs, h, GridNodes, ErrorLog) \<Rightarrow>
        GridNodes = [0..<length h]
        \<and> (case RootNode of None \<Rightarrow> h = [] | Some r \<Rightarrow> r < length h)
        \<and> list_all (\<lambda>n. fresh_node n
              \<and> length (m_Reflectances (m_CameraCalibration n)) = REQUIRED_PROBES_COUNT) h)"

lemma fresh_new_GridNode: "fresh_node (new_GridNode cc)"
  by (simp add: fresh_node_def new_GridNode_fields)

lemma collect_file_collected: "collected st \<Longrightarrow> collected (collect_file f st)"
  by (cases st; cases f)
     (auto simp: collected_def Let_def fresh_new_GridNode new_GridNode_fields split: option.splits)

lemma collect_files_collected: "collected st \<Longrightarrow> collected (collect_files fs st)"
  unfolding collect_files_def
  by (induction fs arbitrary: st) (simp_all add: collect_file_collected)

lemma collected_initial: "collected (None, [], [], [], [])"
  by (simp add: collected_def)

lemma collected_unplaced_fresh:
  assumes "collect_files fs (None, [], [], [], []) = (Some r, ccs, h, G, l)"
  shows "unplaced_fresh h [r] (remove1 r G)"
proof -
  from collect_files_collected [OF collected_initial, of fs] assms
  have c: "G = [0..<length h]" "r < length h" "list_all fresh_node h"
    by (simp_all add: collected_def list_all_iff)
  then show ?thesis
    by (auto simp: unplaced_fresh_def list_all_length dest: notin_set_remove1)
qed

lemma construction_assignments_distinct: "distinct (construction_assignments fs)"
proof -
  obtain r ccs h G l where c: "collect_files fs (None, [], [], [], []) = (r, ccs, h, G, l)"
    by (metis prod_cases5)
  show ?thesis
  proof (cases r)
    case None
    with c show ?thesis by (simp add: construction_assignments_def)
  next
    case (Some r')
    with c have "unplaced_fresh h [r'] (remove1 r' G)"
      by (simp add: collected_unplaced_fresh)
    from build_assignments_distinct_empty [OF this] c Some show ?thesis
      by (simp add: construction_assignments_def)
  qed
qed

lemma place_step_occupied:
  assumes "snd (find_best_pair h P G) = Some (p, u)" "pair_axis h p u = (a, i)"
    "slot (neighbor a (h ! p)) i \<noteq> None"
  shows "place_step h P G = Inl GridNodeAlreadyHasNeighbor"
  using assms by (simp add: place_step_def)

lemma build_loop_occupied:
  assumes "snd (find_best_pair h P G) = Some (p, u)" "pair_axis h p u = (a, i)"
    "slot (neighbor a (h ! p)) i \<noteq> None"
  shows "build_loop h P G = (Some GridNodeAlreadyHasNeighbor, h)"
proof -
  from find_best_pair_mem [OF assms(1)] have "G \<noteq> []" by auto
  then show ?thesis
    by (subst build_loop.simps) (simp add: place_step_occupied [OF assms])
qed

text \<open>
  Claim C6. (1) Whenever the slot chosen on the placed node of the closest pair is occupied,
  the iteration throws the neighbor-already-set exception and the loop ends with it, leaving
  the heap as it was. (2) The assignments of every construction are pairwise distinct: no
  slot is assigned twice. (3) The loop starts in a state where the unplaced nodes are fresh;
  (4) a successful iteration keeps that invariant and assigns only slots that were empty;
  (5) a slot that holds a reference keeps it until the loop ends.
\<close>

theorem neighbor_slot_never_overwritten:
  "(snd (find_best_pair h P G) = Some (p, u) \<and> pair_axis h p u = (a, i)
      \<and> slot (neighbor a (h ! p)) i \<noteq> None
     \<longrightarrow> place_step h P G = Inl GridNodeAlreadyHasNeighbor
         \<and> build_loop h P G = (Some GridNodeAlreadyHasNeighbor, h))
   \<and> distinct (construction_assignments CalibrationFiles)
   \<and> (collect_files CalibrationFiles (None, [], [], [], []) = (Some r, ccs, nodes, GridNodes, ErrorLog)
        \<longrightarrow> unplaced_fresh nodes [r] (remove1 r GridNodes))
   \<and> (unplaced_fresh h1 P1 G1 \<and> place_step h1 P1 G1 = Inr (h', G')
        \<longrightarrow> unplaced_fresh h' P1 G'
            \<and> (\<forall>s \<in> set (step_assignments h1 P1 G1). slot_of h1 s = None \<and> slot_of h' s \<noteq> None))
   \<and> (unplaced_fresh h1 P1 G1 \<and> build_loop h1 P1 G1 = (e, hf) \<and> slot_of h1 s = Some v
        \<longrightarrow> slot_of hf s = Some v)"
  using place_step_occupied [of h P G p u a i] build_loop_occupied [of h P G p u a i]
    construction_assignments_distinct [of CalibrationFiles]
    collected_unplaced_fresh [of CalibrationFiles r ccs nodes GridNodes ErrorLog]
    place_step_unplaced_fresh [of h1 P1 G1 h' G'] place_step_assignments(2) [of h1 P1 G1 h' G']
    build_loop_keeps_slot [of h1 P1 G1 e hf s v]
  by blast

definition heap_AA_B :: "GridNode list" where
  "heap_AA_B = [node_A\<lparr>m_NeighborZ := (None, Some 1)\<rparr>, node_A\<lparr>m_NeighborZ := (Some 0, None)\<rparr>, node_B]"

definition heap_AAB :: "GridNode list" where
  "heap_AAB = [node_A\<lparr>m_NeighborZ := (None, Some 1), m_NeighborX := (Some 2, None)\<rparr>,
               node_A\<lparr>m_NeighborZ := (Some 0, None)\<rparr>,
               node_B\<lparr>m_NeighborX := (None, Some 0)\<rparr>]"

lemma find_best_pair_AAA: "snd (find_best_pair heap_AAA [0] [2]) = Some (0, 2)"
  by (simp add: find_best_pair_def scan_pair_def SqDistance_def Let_def float_MaxValue_def
      heap_AAA_def node_A_def)

lemma pair_axis_AAA: "pair_axis heap_AAA 0 2 = (Z, 1)"
  by (simp add: pair_axis_def choose_axis_def heap_AAA_def node_A_def)

lemma place_step_AA_B: "place_step heap_AA_B [0] [2] = Inr (heap_AAB, [])"
  by (simp add: place_step_def find_best_pair_def scan_pair_def SqDistance_def Let_def
      float_MaxValue_def pair_axis_def choose_axis_def assign_def node_A_def node_B_def
      heap_AA_B_def heap_AAB_def)

lemma step_assignments_AA_B: "step_assignments heap_AA_B [0] [2] = [(0, X, 0), (2, X, 1)]"
  by (simp add: step_assignments_def find_best_pair_def scan_pair_def SqDistance_def Let_def
      float_MaxValue_def pair_axis_def choose_axis_def node_A_def node_B_def heap_AA_B_def)

lemma build_loop_AA_B: "build_loop heap_AA_B [0] [2] = (None, heap_AAB)"
  by (simp add: build_loop.simps [of _ _ "[2]"] build_loop.simps [of _ _ "[]"] place_step_AA_B)

lemma unplaced_fresh_AA_B: "unplaced_fresh heap_AA_B [0] [2]"
  by (simp add: unplaced_fresh_def heap_AA_B_def fresh_node_def node_B_def)

text \<open>
  Witness for C6: the aborting iteration on three coincident samples, the construction from
  samples A and B, and the successful iteration placing node B after two coincident nodes.
\<close>

theorem neighbor_slot_never_overwritten_witness:
  "snd (find_best_pair heap_AAA [0] [2]) = Some (0, 2) \<and> pair_axis heap_AAA 0 2 = (Z, 1)
   \<and> slot (neighbor Z (heap_AAA ! 0)) 1 \<noteq> None
   \<and> place_step heap_AAA [0] [2] = Inl GridNodeAlreadyHasNeighbor
   \<and> build_loop heap_AAA [0] [2] = (Some GridNodeAlreadyHasNeighbor, heap_AAA)
   \<and> distinct (construction_assignments [Some sample_A, Some sample_B])
   \<and> collect_files [Some sample_A, Some sample_B] (None, [], [], [], [])
        = (Some 0, [sample_A, sample_B], [node_A, node_B], [0, 1], [])
   \<and> unplaced_fresh [node_A, node_B] [0] [1]
   \<and> unplaced_fresh heap_AA_B [0] [2] \<and> place_step heap_AA_B [0] [2] = Inr (heap_AAB, [])
   \<and> unplaced_fresh heap_AAB [0] []
   \<and> step_assignments heap_AA_B [0] [2] = [(0, X, 0), (2, X, 1)]
   \<and> slot_of heap_AA_B (0, X, 0) = None \<and> slot_of heap_AAB (0, X, 0) \<noteq> None
   \<and> slot_of heap_AA_B (2, X, 1) = None \<and> slot_of heap_AAB (2, X, 1) \<noteq> None
   \<and> build_loop heap_AA_B [0] [2] = (None, heap_AAB)
   \<and> slot_of heap_AA_B (0, Z, 1) = Some 1 \<and> slot_of heap_AAB (0, Z, 1) = Some 1"
proof -
  have occ: "slot (neighbor Z (heap_AAA ! 0)) 1 \<noteq> None"
    by (simp add: heap_AAA_nth)
  have col: "collect_files [Some sample_A, Some sample_B] (None, [], [], [], [])
        = (Some 0, [sample_A, sample_B], [node_A, node_B], [0, 1], [])"
    using collect_files_AB by simp
  have set: "slot_of heap_AA_B (0, Z, 1) = Some 1"
    by (simp add: slot_of_def heap_AA_B_def)
  from neighbor_slot_never_overwritten [of heap_AAA "[0]" "[2]" 0 2 Z 1
      "[Some sample_A, Some sample_B]" 0 "[sample_A, sample_B]" "[node_A, node_B]" "[0, 1]" "[]"
      heap_AA_B "[0]" "[2]" heap_AAB "[]" None heap_AAB "(0, Z, 1)" 1]
    find_best_pair_AAA pair_axis_AAA occ col unplaced_fresh_AA_B place_step_AA_B build_loop_AA_B set
  show ?thesis
    by (simp add: step_assignments_AA_B)
qed

section \<open>The walks of \<open>FindStartNode\<close>; claim C2\<close>

text \<open>
  Two descriptions of a walk along the next neighbors of one axis, as relations between the
  node where the walk starts and the node where it ends. \<open>guarded_walk\<close> moves to the next
  neighbor when the current node's value and the next neighbor's value are both at most the
  target. \<open>claimed_walk\<close> follows the words of the specification: it moves whenever the
  next neighbor's value is at most the target.
\<close>

inductive guarded_walk :: "GridNode list \<Rightarrow> axis \<Rightarrow> real \<Rightarrow> nat \<Rightarrow> nat \<Rightarrow> bool"
  for h :: "GridNode list" and a :: axis and target :: real where
  stop: "\<not> (ev a (h ! c) \<le> target
            \<and> (\<exists>n. slot (neighbor a (h ! c)) 1 = Some n \<and> ev a (h ! n) \<le> target))
         \<Longrightarrow> guarded_walk h a target c c"
| move: "ev a (h ! c) \<le> target \<Longrightarrow> slot (neighbor a (h ! c)) 1 = Some n \<Longrightarrow>
         ev a (h ! n) \<le> target \<Longrightarrow> guarded_walk h a target n r \<Longrightarrow>
         guarded_walk h a target c r"

inductive claimed_walk :: "GridNode list \<Rightarrow> axis \<Rightarrow> real \<Rightarrow> nat \<Rightarrow> nat \<Rightarrow> bool"
  for h :: "GridNode list" and a :: axis and target :: real where
  stop: "\<not> (\<exists>n. slot (neighbor a (h ! c)) 1 = Some n \<and> ev a (h ! n) \<le> target)
         \<Longrightarrow> claimed_walk h a target c c"
| move: "slot (neighbor a (h ! c)) 1 = Some n \<Longrightarrow> ev a (h ! n) \<le> target \<Longrightarrow>
         claimed_walk h a target n r \<Longrightarrow> claimed_walk h a target c r"


lemma walk_stop:
  "\<not> (ev a (h ! c) \<le> target
        \<and> (\<exists>n. slot (neighbor a (h ! c)) 1 = Some n \<and> ev a (h ! n) \<le> target))
   \<Longrightarrow> walk h a target c = Some c"
  by (subst walk.simps) (auto split: option.splits)

lemma walk_move:
  "ev a (h ! c) \<le> target \<Longrightarrow> slot (neighbor a (h ! c)) 1 = Some n \<Longrightarrow>
   ev a (h ! n) \<le> target \<Longrightarrow> walk h a target c = walk h a target n"
  by (subst walk.simps) simp

lemma guarded_walk_imp_walk: "guarded_walk h a target c r \<Longrightarrow> walk h a target c = Some r"
  by (induction rule: guarded_walk.induct) (simp_all add: walk_stop walk_move)

lemma walk_imp_guarded_walk: "walk h a target c = Some r \<Longrightarrow> guarded_walk h a target c r"
proof (induction rule: walk.raw_induct [rotated, consumes 1])
  case (1 walk' h a target c r)
  show ?case
  proof (cases "ev a (h ! c) \<le> target
        \<and> (\<exists>n. slot (neighbor a (h ! c)) 1 = Some n \<and> ev a (h ! n) \<le> target)")
    case True
    then obtain n where n: "ev a (h ! c) \<le> target" "slot (neighbor a (h ! c)) 1 = Some n"
      "ev a (h ! n) \<le> target" by blast
    with 1(2) have "walk' h a target n = Some r" by simp
    then have "guarded_walk h a target n r" by (rule 1(1))
    with n show ?thesis by (rule guarded_walk.move)
  next
    case False
    with 1(2) have "r = c" by (auto split: if_splits option.splits)
    with False show ?thesis by (simp add: guarded_walk.stop)
  qed
qed

lemma walk_iff_guarded_walk: "walk h a target c = Some r \<longleftrightarrow> guarded_walk h a target c r"
  by (blast intro: guarded_walk_imp_walk walk_imp_guarded_walk)

lemma guarded_walk_end:
  "guarded_walk h a target c r \<Longrightarrow>
   (r = c \<or> ev a (h ! r) \<le> target)
   \<and> \<not> (ev a (h ! r) \<le> target
        \<and> (\<exists>n. slot (neighbor a (h ! r)) 1 = Some n \<and> ev a (h ! n) \<le> target))"
  by (induction rule: guarded_walk.induct) auto

lemma guarded_walk_claimed_walk:
  "ev a (h ! c) \<le> target \<Longrightarrow> guarded_walk h a target c r \<longleftrightarrow> claimed_walk h a target c r"
proof
  assume "guarded_walk h a target c r" "ev a (h ! c) \<le> target"
  then show "claimed_walk h a target c r"
    by (induction rule: guarded_walk.induct) (auto intro: claimed_walk.intros)
next
  assume "claimed_walk h a target c r" "ev a (h ! c) \<le> target"
  then show "guarded_walk h a target c r"
    by (induction rule: claimed_walk.induct) (auto intro: guarded_walk.intros)
qed

lemma FindStartNode_iff:
  "FindStartNode h RootNode tx ty tz = Some r \<longleftrightarrow>
     (\<exists>cx cy. guarded_walk h X tx RootNode cx \<and> guarded_walk h Y ty cx cy \<and> guarded_walk h Z tz cy r)"
  by (auto simp: FindStartNode_def walk_iff_guarded_walk [symmetric] split: option.splits)

text \<open>
  Claim C2 (amended). \<open>FindStartNode\<close> returns a node exactly when it is reached by three
  guarded walks in sequence, on X from the root, on Y from the node the X walk reached and
  on Z from the node the Y walk reached. A walk ends on its starting node or on a node whose
  own value on the axis is at most the target, and where it ends the walk cannot go on: the
  node's own value exceeds the target, or it has no next neighbor, or the next neighbor's
  value exceeds the target. From a starting node whose value is at most the target the
  guarded walk is the walk of the claim.
\<close>

theorem FindStartNode_sequential_guarded_walks:
  "(FindStartNode h RootNode tx ty tz = Some r \<longleftrightarrow>
     (\<exists>cx cy. guarded_walk h X tx RootNode cx \<and> guarded_walk h Y ty cx cy
         \<and> guarded_walk h Z tz cy r))
   \<and> (guarded_walk h a target c r \<longrightarrow>
        (r = c \<or> ev a (h ! r) \<le> target)
        \<and> \<not> (ev a (h ! r) \<le> target
             \<and> (\<exists>n. slot (neighbor a (h ! r)) 1 = Some n \<and> ev a (h ! n) \<le> target)))
   \<and> (ev a (h ! c) \<le> target \<longrightarrow>
        (guarded_walk h a target c r \<longleftrightarrow> claimed_walk h a target c r))"
  using FindStartNode_iff [of h RootNode tx ty tz r] guarded_walk_end [of h a target c r]
    guarded_walk_claimed_walk [of a h c target r]
  by blast


subsection \<open>A database whose root has a lower next neighbor\<close>

definition sample_C :: CameraCalibration where
  "sample_C = \<lparr>m_ISOSpeed = 400, m_ShutterSpeed = 1, m_Aperture = 1, m_Reflectances = [1, 2, 3, 4, 5, 6]\<rparr>"

definition sample_D :: CameraCalibration where
  "sample_D = \<lparr>m_ISOSpeed = 100, m_ShutterSpeed = 2, m_Aperture = 1 / 2, m_Reflectances = [7, 8, 9, 10, 11, 12]\<rparr>"

definition node_C :: GridNode where
  "node_C = \<lparr>m_CameraCalibration = sample_C, m_EV_ISOSpeed = 2, m_EV_ShutterSpeed = 0, m_EV_Aperture = 0,
     m_NeighborX = (None, None), m_NeighborY = (None, None), m_NeighborZ = (None, None)\<rparr>"

definition node_D :: GridNode where
  "node_D = \<lparr>m_CameraCalibration = sample_D, m_EV_ISOSpeed = 0, m_EV_ShutterSpeed = 1, m_EV_Aperture = 1,
     m_NeighborX = (None, None), m_NeighborY = (None, None), m_NeighborZ = (None, None)\<rparr>"

definition directory_CD :: DirectoryInfo where
  "directory_CD = DirectoryInfo True [Some sample_C, Some sample_D]"

definition heap_CD :: "GridNode list" where
  "heap_CD = [node_C\<lparr>m_NeighborX := (None, Some 1)\<rparr>, node_D\<lparr>m_NeighborX := (Some 0, None)\<rparr>]"

definition database_CD :: CameraCalibrationDatabase where
  "database_CD = snd (set_DatabasePath (Some directory_CD) new_CameraCalibrationDatabase)"

lemma ln_4: "ln (4 :: real) = 2 * ln 2"
  using ln_realpow [of "2 :: real" 2] by simp

lemma ln_half: "ln (1 / 2 :: real) = - ln 2"
  by (simp add: ln_div)

lemma new_GridNode_sample_C: "new_GridNode sample_C = node_C"
  by (simp add: new_GridNode_def Convert2EV_def sample_C_def node_C_def ln_4)

lemma new_GridNode_sample_D: "new_GridNode sample_D = node_D"
  by (simp add: new_GridNode_def Convert2EV_def sample_D_def node_D_def ln_half)

lemma set_DatabasePath_CD:
  "set_DatabasePath (Some directory_CD) new_CameraCalibrationDatabase =
     (None, new_CameraCalibrationDatabase
              \<lparr>m_DatabasePath := Some directory_CD, m_RootNode := Some 0,
               m_CameraClibrations := [sample_C, sample_D], GridNode_heap := heap_CD\<rparr>)"
proof -
  have "length (m_Reflectances sample_C) = REQUIRED_PROBES_COUNT"
       "length (m_Reflectances sample_D) = REQUIRED_PROBES_COUNT"
    by (simp_all add: sample_C_def sample_D_def REQUIRED_PROBES_COUNT_def)
  moreover have "\<not> EV node_D < EV node_C"
    by (simp add: EV_def node_C_def node_D_def)
  ultimately have c: "collect_files [Some sample_C, Some sample_D] (None, [], [], [], [])
     = (Some 0, [sample_C, sample_D], [node_C, node_D], [0, Suc 0], [])"
    by (simp add: collect_files_def Let_def new_GridNode_sample_C new_GridNode_sample_D)
  have p: "place_step [node_C, node_D] [0] [Suc 0] = Inr (heap_CD, [])"
    by (simp add: place_step_def find_best_pair_def scan_pair_def SqDistance_def Let_def
      float_MaxValue_def pair_axis_def choose_axis_def assign_def node_C_def node_D_def heap_CD_def)
  have b: "build_loop [node_C, node_D] [0] [Suc 0] = (None, heap_CD)"
    by (simp add: build_loop.simps [of _ _ "[Suc 0]"] build_loop.simps [of _ _ "[]"] p)
  show ?thesis
    by (simp add: set_DatabasePath_def new_CameraCalibrationDatabase_def directory_CD_def c b Let_def)
qed

lemma database_CD_fields:
  "m_RootNode database_CD = Some 0" "GridNode_heap database_CD = heap_CD"
  unfolding database_CD_def set_DatabasePath_CD
  by (simp_all add: new_CameraCalibrationDatabase_def)

lemma heap_CD_nth:
  "heap_CD ! 0 = node_C\<lparr>m_NeighborX := (None, Some 1)\<rparr>"
  "heap_CD ! Suc 0 = node_D\<lparr>m_NeighborX := (Some 0, None)\<rparr>"
  by (simp_all add: heap_CD_def)

text \<open>
  Claim C2 as stated fails on the database of samples C (ISO 400, 1 s, f/1.0) and D (ISO 100,
  2 s, f/0.5): the root C has D as next X neighbor, D's value on X is below the target 1,
  yet the walk stays on C, whose own value 2 exceeds the target and which is not the end of
  the chain.
\<close>

theorem FindStartNode_guard_counterexample:
  "fst (set_DatabasePath (Some directory_CD) new_CameraCalibrationDatabase) = None
   \<and> m_RootNode database_CD = Some 0
   \<and> slot (m_NeighborX (GridNode_heap database_CD ! 0)) 1 = Some 1
   \<and> m_EV_ISOSpeed (GridNode_heap database_CD ! 1) \<le> 1
   \<and> \<not> m_EV_ISOSpeed (GridNode_heap database_CD ! 0) \<le> 1
   \<and> walk (GridNode_heap database_CD) X 1 0 = Some 0
   \<and> FindStartNode (GridNode_heap database_CD) 0 1 1 1 = Some 0
   \<and> \<not> claimed_walk (GridNode_heap database_CD) X 1 0 0"
proof -
  have w: "walk heap_CD X 1 0 = Some 0" "walk heap_CD Y 1 0 = Some 0" "walk heap_CD Z 1 0 = Some 0"
    by (simp_all add: walk_stop heap_CD_nth node_C_def)
  have "\<not> claimed_walk heap_CD X 1 0 0"
  proof
    assume "claimed_walk heap_CD X 1 0 0"
    then show False
    proof (cases rule: claimed_walk.cases)
      case stop
      then show False by (simp add: heap_CD_nth node_C_def node_D_def)
    next
      case (move n)
      then have "n = Suc 0" by (simp add: heap_CD_nth node_C_def)
      with move(3) show False
        by (cases rule: claimed_walk.cases) (simp_all add: heap_CD_nth node_D_def)
    qed
  qed
  with w show ?thesis
    by (simp add: database_CD_fields set_DatabasePath_CD FindStartNode_def heap_CD_nth
        node_C_def node_D_def)
qed

text \<open>
  Witness for C2: the walks on the heap of three coincident samples.
\<close>

theorem FindStartNode_sequential_guarded_walks_witness:
  "FindStartNode heap_AAA 0 100 1 1 = Some 1
   \<and> guarded_walk heap_AAA X 100 0 0 \<and> guarded_walk heap_AAA Y 1 0 0
   \<and> guarded_walk heap_AAA Z 1 0 1
   \<and> ev Z (heap_AAA ! 0) \<le> 1 \<and> ev Z (heap_AAA ! 1) \<le> 1
   \<and> slot (neighbor Z (heap_AAA ! 1)) 1 = None
   \<and> claimed_walk heap_AAA Z 1 0 1"
proof -
  have g: "guarded_walk heap_AAA X 100 0 0" "guarded_walk heap_AAA Y 1 0 0"
    by (simp_all add: guarded_walk.stop heap_AAA_nth node_A_def)
  have "guarded_walk heap_AAA Z 1 (Suc 0) (Suc 0)"
    by (simp add: guarded_walk.stop heap_AAA_nth node_A_def)
  then have z: "guarded_walk heap_AAA Z 1 0 (Suc 0)"
    using guarded_walk.move [where h = heap_AAA and a = Z and target = 1 and c = 0
        and n = "Suc 0" and r = "Suc 0"]
    by (simp add: heap_AAA_nth node_A_def)
  have e: "ev Z (heap_AAA ! 0) \<le> 1" "ev Z (heap_AAA ! 1) \<le> 1" "slot (neighbor Z (heap_AAA ! 1)) 1 = None"
    by (simp_all add: heap_AAA_nth node_A_def)
  note T = FindStartNode_sequential_guarded_walks [of heap_AAA 0 100 1 1 "Suc 0" Z 1 0]
  from T g z have f: "FindStartNode heap_AAA 0 100 1 1 = Some (Suc 0)"
    by blast
  from T z e(1) have c: "claimed_walk heap_AAA Z 1 0 (Suc 0)"
    by blast
  from f g z e c show ?thesis
    by simp
qed

section \<open>The grid that the loop builds; claims C8 and C1\<close>

text \<open>
  \<open>PlacedNodes\<close> holds the root only, all along the loop. The invariant \<open>star\<close> says what
  this gives: a next neighbor of the root is another, placed node that has no next neighbor
  itself. \<open>well_formed_node\<close> says that a node has the required number of probes and
  carries the EV conversion of its calibration's shot parameters.
\<close>

definition no_next :: "GridNode list \<Rightarrow> nat \<Rightarrow> bool" where
  "no_next h n \<longleftrightarrow> n < length h \<and> (\<forall>a. slot (neighbor a (h ! n)) 1 = None)"

definition star :: "GridNode list \<Rightarrow> nat \<Rightarrow> nat list \<Rightarrow> bool" where
  "star h r G \<longleftrightarrow>
     r < length h
     \<and> (\<forall>a m. slot (neighbor a (h ! r)) 1 = Some m \<longrightarrow> m \<noteq> r \<and> m \<notin> set G \<and> no_next h m)"

definition well_formed_node :: "GridNode \<Rightarrow> bool" where
  "well_formed_node n \<longleftrightarrow>
     length (m_Reflectances (m_CameraCalibration n)) = REQUIRED_PROBES_COUNT
     \<and> (m_EV_ISOSpeed n, m_EV_ShutterSpeed n, m_EV_Aperture n) =
         Convert2EV (m_ISOSpeed (m_CameraCalibration n)) (m_ShutterSpeed (m_CameraCalibration n))
           (m_Aperture (m_CameraCalibration n))"

lemma well_formed_neighbor_update:
  "well_formed_node (neighbor_update a v n) = well_formed_node n"
  by (cases a) (simp_all add: well_formed_node_def)

lemma list_all_well_formed_assign:
  "list_all well_formed_node h \<Longrightarrow> list_all well_formed_node (assign n a i t h)"
proof -
  assume wf: "list_all well_formed_node h"
  have "well_formed_node (assign n a i t h ! k)" if "k < length h" for k
  proof (cases "k = n")
    case True
    with that wf show ?thesis
      by (simp add: assign_def list_all_length well_formed_neighbor_update)
  next
    case False
    with that wf show ?thesis
      by (simp add: assign_def list_all_length)
  qed
  then show ?thesis
    by (simp add: list_all_length)
qed

lemma place_step_well_formed:
  "place_step h P G = Inr (h', G') \<Longrightarrow> list_all well_formed_node h \<Longrightarrow>
   list_all well_formed_node h'"
  by (erule place_step_Inr) (simp add: list_all_well_formed_assign)

lemma place_step_length_heap: "place_step h P G = Inr (h', G') \<Longrightarrow> length h' = length h"
  by (erule place_step_Inr) simp

lemma slot_as_slot_of: "slot (neighbor a (h ! n)) i = slot_of h (n, a, i)"
  by (simp add: slot_of_def)

lemma fresh_slot_of: "fresh_node (h ! n) \<Longrightarrow> slot_of h (n, a, i) = None"
  by (simp add: slot_of_def fresh_node_slot)

lemma place_step_star:
  assumes "place_step h [r] G = Inr (h', G')" "unplaced_fresh h [r] G" "star h r G"
  shows "star h' r G'"
proof -
  from assms(1) obtain p u a i where s:
    "p \<in> set [r]" "u \<in> set G" "pair_axis h p u = (a, i)"
    "h' = assign u a (1 - i) p (assign p a i u h)" "G' = remove1 u G"
    by (rule place_step_Inr)
  from s(1) have [simp]: "p = r" by simp
  from assms(2) s(2) have d: "r \<noteq> u" "r < length h" "u < length h" "fresh_node (h ! u)" "distinct G"
    by (auto simp: unplaced_fresh_def)
  from pair_axis_index [OF s(3)] have i: "i = 0 \<or> i = 1" .
  note sl = slot_as_slot_of
  have "m \<noteq> r \<and> m \<notin> set G' \<and> no_next h' m" if m: "slot (neighbor a' (h' ! r)) 1 = Some m" for a' m
  proof (cases "a' = a \<and> i = 1")
    case True
    with m d have "m = u"
      by (simp add: sl s(4) slot_of_assign)
    moreover have "no_next h' u"
      using d True by (auto simp: no_next_def sl s(4) slot_of_assign fresh_slot_of)
    ultimately show ?thesis
      using d s(5) by simp
  next
    case False
    with m d i have "slot (neighbor a' (h ! r)) 1 = Some m"
      by (auto simp: sl s(4) slot_of_assign split: if_splits)
    with assms(3) have o: "m \<noteq> r" "m \<notin> set G" "no_next h m"
      by (auto simp: star_def sl)
    with s(2) have "m \<noteq> u" by auto
    with o d have "no_next h' m"
      by (auto simp: no_next_def sl s(4) slot_of_assign)
    with o s(5) show ?thesis
      by (auto dest: notin_set_remove1)
  qed
  with d show ?thesis
    by (simp add: star_def s(4) del: One_nat_def)
qed

lemma build_loop_star:
  "unplaced_fresh h [r] G \<Longrightarrow> star h r G \<Longrightarrow> list_all well_formed_node h \<Longrightarrow>
   build_loop h [r] G = (e, hf) \<Longrightarrow>
   length hf = length h \<and> list_all well_formed_node hf \<and> (\<exists>G'. star hf r G')"
proof (induction h "[r]" G rule: build_loop.induct)
  case (1 h G)
  show ?case
  proof (cases "G = []")
    case True
    with "1.prems" show ?thesis by (auto simp: build_loop.simps)
  next
    case False
    show ?thesis
    proof (cases "place_step h [r] G")
      case (Inl err)
      with False "1.prems" show ?thesis by (auto simp: build_loop.simps)
    next
      case (Inr res)
      obtain h' G' where "res = (h', G')" by (cases res)
      with Inr have ps: "place_step h [r] G = Inr (h', G')" by simp
      have "build_loop h' [r] G' = (e, hf)"
        using "1.prems"(4) False ps by (simp add: build_loop.simps)
      moreover have "unplaced_fresh h' [r] G'"
        using ps "1.prems"(1) by (rule place_step_unplaced_fresh)
      moreover have "star h' r G'"
        using ps "1.prems"(1,2) by (rule place_step_star)
      moreover have "list_all well_formed_node h'"
        using ps "1.prems"(3) by (rule place_step_well_formed)
      ultimately have "length hf = length h' \<and> list_all well_formed_node hf \<and> (\<exists>G'. star hf r G')"
        using "1.hyps" [OF False ps refl] by blast
      with place_step_length_heap [OF ps] show ?thesis by simp
    qed
  qed
qed


lemma walk_no_next: "no_next h n \<Longrightarrow> walk h a target n = Some n"
  by (rule walk_stop) (simp add: no_next_def)

lemma walk_star:
  assumes "star h r G"
  shows "\<exists>s. walk h a target r = Some s \<and> (s = r \<or> no_next h s)"
proof (cases "ev a (h ! r) \<le> target
        \<and> (\<exists>n. slot (neighbor a (h ! r)) 1 = Some n \<and> ev a (h ! n) \<le> target)")
  case True
  then obtain n where n: "ev a (h ! r) \<le> target" "slot (neighbor a (h ! r)) 1 = Some n"
      "ev a (h ! n) \<le> target" by blast
  with assms have "no_next h n" by (simp add: star_def)
  with walk_move [OF n] show ?thesis by (simp add: walk_no_next)
next
  case False
  then show ?thesis by (simp add: walk_stop)
qed

lemma FindStartNode_star:
  assumes "star h r G"
  shows "\<exists>s. FindStartNode h r tx ty tz = Some s \<and> (s = r \<or> no_next h s)"
proof -
  from walk_star [OF assms] obtain cx where
    cx: "walk h X tx r = Some cx" "cx = r \<or> no_next h cx" by blast
  have "\<exists>cy. walk h Y ty cx = Some cy \<and> (cy = r \<or> no_next h cy)"
    using cx(2) walk_star [OF assms] by (auto simp: walk_no_next)
  then obtain cy where cy: "walk h Y ty cx = Some cy" "cy = r \<or> no_next h cy" by blast
  have "\<exists>cz. walk h Z tz cy = Some cz \<and> (cz = r \<or> no_next h cz)"
    using cy(2) walk_star [OF assms] by (auto simp: walk_no_next)
  with cx(1) cy(1) show ?thesis
    by (simp add: FindStartNode_def)
qed

lemma next_or_self_star:
  assumes "star h r G" "n = r \<or> no_next h n"
  shows "next_or_self h a n = r \<or> no_next h (next_or_self h a n)"
  using assms by (auto simp: next_or_self_def star_def no_next_def split: option.splits)

lemma Grid_nodes_star:
  assumes "star h r G" "s = r \<or> no_next h s"
  shows "list_all (\<lambda>n. n < length h) (Grid_nodes (build_Grid h s))"
proof -
  have v: "n < length h" if "n = r \<or> no_next h n" for n
    using that assms(1) by (auto simp: star_def no_next_def)
  note n = next_or_self_star [OF assms(1)]
  show ?thesis
    using assms(2) by (simp add: Grid_nodes_def build_Grid_def Let_def v n)
qed

lemma fresh_star: "r < length h \<Longrightarrow> list_all fresh_node h \<Longrightarrow> star h r G"
  by (simp add: star_def list_all_length fresh_node_slot)

lemma collect_file_well_formed:
  "collect_file f (r, ccs, h, G, l) = (r', ccs', h', G', l') \<Longrightarrow>
   list_all well_formed_node h \<Longrightarrow> list_all well_formed_node h'"
  by (cases f)
     (auto simp: Let_def well_formed_node_def new_GridNode_fields Convert2EV_def split: if_splits)

lemma collect_files_well_formed:
  "collect_files fs (r, ccs, h, G, l) = (r', ccs', h', G', l') \<Longrightarrow>
   list_all well_formed_node h \<Longrightarrow> list_all well_formed_node h'"
proof (induction fs arbitrary: r ccs h G l)
  case Nil
  then show ?case by (simp add: collect_files_def)
next
  case (Cons f fs)
  obtain r1 ccs1 h1 G1 l1 where st: "collect_file f (r, ccs, h, G, l) = (r1, ccs1, h1, G1, l1)"
    by (metis prod_cases5)
  with Cons.prems(1) have "collect_files fs (r1, ccs1, h1, G1, l1) = (r', ccs', h', G', l')"
    by (simp add: collect_files_def)
  moreover from st Cons.prems(2) have "list_all well_formed_node h1"
    by (rule collect_file_well_formed)
  ultimately show ?case by (rule Cons.IH)
qed

lemma set_DatabasePath_new_heap:
  assumes "set_DatabasePath (Some dir) new_CameraCalibrationDatabase = (e, db)"
    and "m_RootNode db = Some r"
  shows "(\<exists>G. star (GridNode_heap db) r G) \<and> list_all well_formed_node (GridNode_heap db)"
proof (cases "Exists dir")
  case False
  with assms show ?thesis
    by (auto simp: set_DatabasePath_def new_CameraCalibrationDatabase_def Let_def)
next
  case True
  obtain r0 ccs h G l where c: "collect_files (GetFiles dir) (None, [], [], [], []) = (r0, ccs, h, G, l)"
    by (metis prod_cases5)
  from assms True c have r0: "r0 = Some r"
    by (auto simp: set_DatabasePath_def new_CameraCalibrationDatabase_def Let_def
        split: if_splits option.splits prod.splits)
  from collect_files_collected [OF collected_initial, of "GetFiles dir"] c r0
  have col: "r < length h" "list_all fresh_node h"
    by (simp_all add: collected_def list_all_iff)
  have wf: "list_all well_formed_node h"
    using c by (rule collect_files_well_formed) simp
  have uf: "unplaced_fresh h [r] (remove1 r G)"
    using c r0 by (simp add: collected_unplaced_fresh)
  obtain err hf where b: "build_loop h [r] (remove1 r G) = (err, hf)"
    by (cases "build_loop h [r] (remove1 r G)")
  from build_loop_star [OF uf fresh_star [OF col] wf b]
  have built: "(\<exists>G. star hf r G) \<and> list_all well_formed_node hf" by simp
  from assms(1) True c r0 b have "GridNode_heap db = h \<or> GridNode_heap db = hf"
    by (auto simp: set_DatabasePath_def new_CameraCalibrationDatabase_def Let_def
        split: if_splits)
  with built wf fresh_star [OF col] show ?thesis by auto
qed




lemma well_formed_has_probes:
  "list_all well_formed_node h \<Longrightarrow> n < length h \<Longrightarrow> has_probes h n"
  by (simp add: list_all_length well_formed_node_def has_probes_def)



text \<open>
  The exception and the interpolated luminances that a call of \<open>PrepareCalibrationFor\<close>
  leaves, when it returns.
\<close>

definition prepared :: "(error option \<times> CameraCalibrationDatabase) option \<Rightarrow> (error option \<times> real list option) option" where
  "prepared res = map_option (\<lambda>(e, db'). (e, m_InterpolatedCalibration db')) res"



lemma interpolant_at_lo: "interpolant lo lo hi = 0"
  by (simp add: interpolant_def)

lemma compute_interpolants_at_node:
  assumes "EVt = (m_EV_ISOSpeed (h ! Grid000 G), m_EV_ShutterSpeed (h ! Grid000 G),
                  m_EV_Aperture (h ! Grid000 G))"
  shows "tX_x (compute_interpolants h G EVt) = 0" "tY_x (compute_interpolants h G EVt) = 0"
    "tZ (compute_interpolants h G EVt) = 0"
  using assms by (simp_all add: compute_interpolants_def Let_def interpolant_at_lo)

lemma interpolate_probe_at_node:
  assumes "list_all (has_probes h) (Grid_nodes G)" "ProbeIndex < REQUIRED_PROBES_COUNT"
    "tX_x t = 0" "tY_x t = 0" "tZ t = 0"
  shows "interpolate_probe h G t ProbeIndex =
     Some (m_Reflectances (m_CameraCalibration (h ! Grid000 G)) ! ProbeIndex)"
  using assms
  by (simp add: interpolate_probe_def Grid_nodes_def LuminanceMeasured_Some Let_def)

lemma interpolate_probe_degenerate:
  assumes "has_probes h n" "ProbeIndex < REQUIRED_PROBES_COUNT"
  shows "interpolate_probe h \<lparr>Grid000 = n, Grid100 = n, Grid010 = n, Grid001 = n,
                              Grid110 = n, Grid011 = n, Grid101 = n, Grid111 = n\<rparr> t ProbeIndex
     = Some (m_Reflectances (m_CameraCalibration (h ! n)) ! ProbeIndex)"
  using assms
  by (simp add: interpolate_probe_def LuminanceMeasured_Some Let_def algebra_simps)

lemma Grid000_build_Grid: "Grid000 (build_Grid h s) = s"
  by (simp add: build_Grid_def Let_def)

lemma map_probes:
  assumes "length xs = REQUIRED_PROBES_COUNT"
    and "\<And>i. i < REQUIRED_PROBES_COUNT \<Longrightarrow> f i = Some (xs ! i)"
  shows "map (the \<circ> f) [0..<REQUIRED_PROBES_COUNT] = xs"
proof -
  have "map (the \<circ> f) [0..<length xs] = map ((!) xs) [0..<length xs]"
    using assms by (intro map_cong) simp_all
  also have "\<dots> = xs"
    by (rule map_nth)
  finally show ?thesis
    by (simp only: assms(1))
qed

text \<open>
  Interpolation is exact at the start node: when \<open>FindStartNode\<close>, given the shot
  parameters of a stored sample, returns that sample's own node, the interpolated
  calibration holds exactly the six measured luminances of the sample.
\<close>

lemma interpolation_exact_at_start_node:
  assumes "set_DatabasePath (Some dir) new_CameraCalibrationDatabase = (None, db)"
    and "m_RootNode db = Some r"
    and "k < length (GridNode_heap db)"
    and "cc = m_CameraCalibration (GridNode_heap db ! k)"
    and "FindStartNode (GridNode_heap db) r (m_ISOSpeed cc) (m_ShutterSpeed cc) (m_Aperture cc)
           = Some k"
  shows "prepared (PrepareCalibrationFor (m_ISOSpeed cc) (m_ShutterSpeed cc) (m_Aperture cc) db)
           = Some (None, Some (m_Reflectances cc))"
proof -
  let ?h = "GridNode_heap db"
  let ?G = "build_Grid ?h k"
  let ?EV = "Convert2EV (m_ISOSpeed cc) (m_ShutterSpeed cc) (m_Aperture cc)"
  let ?t = "compute_interpolants ?h ?G ?EV"
  from set_DatabasePath_new_heap [OF assms(1,2)] obtain G where
    st: "star ?h r G" and wf: "list_all well_formed_node ?h" by blast
  from FindStartNode_star [OF st, of "m_ISOSpeed cc" "m_ShutterSpeed cc" "m_Aperture cc"] assms(5)
  have "k = r \<or> no_next ?h k" by auto
  with st have "list_all (\<lambda>n. n < length ?h) (Grid_nodes ?G)"
    by (rule Grid_nodes_star)
  then have hp: "list_all (has_probes ?h) (Grid_nodes ?G)"
    using wf by (simp add: list_all_iff well_formed_has_probes)
  from wf assms(3,4) have wk: "length (m_Reflectances cc) = REQUIRED_PROBES_COUNT"
    "?EV = (m_EV_ISOSpeed (?h ! k), m_EV_ShutterSpeed (?h ! k), m_EV_Aperture (?h ! k))"
    by (simp_all add: list_all_length well_formed_node_def)
  have t0: "tX_x ?t = 0" "tY_x ?t = 0" "tZ ?t = 0"
    by (rule compute_interpolants_at_node, simp add: wk(2) Grid000_build_Grid)+
  have "interpolate_probe ?h ?G ?t i = Some (m_Reflectances cc ! i)"
    if "i < REQUIRED_PROBES_COUNT" for i
    using interpolate_probe_at_node [OF hp that t0] by (simp add: Grid000_build_Grid assms(4))
  with wk(1) have "map (the \<circ> interpolate_probe ?h ?G ?t) [0..<REQUIRED_PROBES_COUNT]
      = m_Reflectances cc"
    by (rule map_probes)
  with PrepareCalibrationFor_returns [OF assms(2,5) hp] show ?thesis
    by (simp add: prepared_def)
qed

text \<open>
  Claim C1, evaluated on the database of the two samples A and B. Construction succeeds and
  sample B is stored, with shot parameters ISO 200, 1 s, f/1.0 and luminances 7 to 12, but
  \<open>PrepareCalibrationFor 200 1 1\<close> leaves the luminances 1 to 6 of sample A: node B sits in
  slot 0 of the X neighbors of the root A, where \<open>FindStartNode\<close> does not look.
\<close>

theorem round_trip_sample_B_gives_sample_A:
  "fst (set_DatabasePath (Some directory_AB) new_CameraCalibrationDatabase) = None
   \<and> m_CameraCalibration (GridNode_heap database_AB ! 1) = sample_B
   \<and> m_ISOSpeed sample_B = 200 \<and> m_ShutterSpeed sample_B = 1 \<and> m_Aperture sample_B = 1
   \<and> m_Reflectances sample_B = [7, 8, 9, 10, 11, 12]
   \<and> prepared (PrepareCalibrationFor 200 1 1 database_AB) = Some (None, Some [1, 2, 3, 4, 5, 6])"
proof -
  have f: "FindStartNode (GridNode_heap database_AB) 0 200 1 1 = Some 0"
    by (simp add: database_AB_fields FindStartNode_AB)
  have hp0: "has_probes heap_AB 0"
    by (simp add: has_probes_def heap_AB_nth node_A_def sample_A_probes)
  then have hp: "list_all (has_probes (GridNode_heap database_AB))
      (Grid_nodes (build_Grid (GridNode_heap database_AB) 0))"
    by (simp add: database_AB_fields build_Grid_AB Grid_nodes_def)
  have "interpolate_probe heap_AB (build_Grid heap_AB 0) t i = Some ([1, 2, 3, 4, 5, 6] ! i)"
    if "i < REQUIRED_PROBES_COUNT" for i t
    unfolding build_Grid_AB interpolate_probe_degenerate [OF hp0 that]
    by (simp add: heap_AB_nth node_A_def sample_A_def)
  then have "map (the \<circ> interpolate_probe heap_AB (build_Grid heap_AB 0) t)
       [0..<REQUIRED_PROBES_COUNT] = [1, 2, 3, 4, 5, 6]" for t
    by (intro map_probes) (simp_all add: REQUIRED_PROBES_COUNT_def)
  with PrepareCalibrationFor_returns [OF database_AB_fields(1) f hp]
  have "prepared (PrepareCalibrationFor 200 1 1 database_AB) = Some (None, Some [1, 2, 3, 4, 5, 6])"
    by (simp add: prepared_def database_AB_fields)
  then show ?thesis
    by (simp add: set_DatabasePath_AB database_AB_fields heap_AB_nth node_B_def sample_B_def)
qed

section \<open>Samples contending for a slot of the root; claim C7\<close>

text \<open>
  \<open>positive_float\<close> is the range of the positive single-precision numbers, from
  \<open>2^-149\<close> to \<open>float.MaxValue\<close>; for shot parameters in that range every EV is at most 156
  in absolute value, so every squared distance is below \<open>float.MaxValue\<close> and the search
  for the closest pair finds one. \<open>contested\<close> says that an unplaced node aims at a slot of
  the root that is taken, or that two unplaced nodes aim at the same slot.
\<close>

definition positive_float :: "real \<Rightarrow> bool" where
  "positive_float x \<longleftrightarrow> 1 / 2 ^ 149 \<le> x \<and> x \<le> float_MaxValue"

definition float_shot :: "CameraCalibration \<Rightarrow> bool" where
  "float_shot cc \<longleftrightarrow>
     positive_float (m_ISOSpeed cc) \<and> positive_float (m_ShutterSpeed cc)
     \<and> positive_float (m_Aperture cc)"

lemma log2_bounds:
  fixes x :: real
  assumes "1 / 2 ^ 156 \<le> x" "x \<le> 2 ^ 128"
  shows "abs (ln x / ln 2) \<le> 156"
proof -
  have "(0::real) < 1 / 2 ^ 156" by simp
  then have x: "0 < x" using assms(1) by (rule less_le_trans)
  have "ln (1 / 2 ^ 156 :: real) \<le> ln x"
    using assms(1) x by (subst ln_le_cancel_iff) simp_all
  moreover have "ln (1 / 2 ^ 156 :: real) = - 156 * ln 2"
    using ln_realpow [of "2 :: real" 156] by (simp add: ln_div)
  moreover have "ln x \<le> ln (2 ^ 128 :: real)"
    using assms(2) x by (subst ln_le_cancel_iff) simp_all
  moreover have "ln (2 ^ 128 :: real) = 128 * ln 2"
    using ln_realpow [of "2 :: real" 128] by simp
  moreover have "0 < ln (2 :: real)" by simp
  ultimately have "- 156 \<le> ln x / ln 2" "ln x / ln 2 \<le> 128"
    by (simp_all add: field_simps)
  then show ?thesis by linarith
qed

lemma positive_float_bounds:
  assumes "positive_float x"
  shows "1 / 2 ^ 156 \<le> x" "x \<le> 2 ^ 128" "1 / 2 ^ 156 \<le> x / 100" "x / 100 \<le> 2 ^ 128"
  using assms by (simp_all add: positive_float_def float_MaxValue_def)

lemma float_shot_EV:
  assumes "float_shot cc"
  shows "abs (ev a (new_GridNode cc)) \<le> 156"
proof -
  from assms have p: "positive_float (m_ISOSpeed cc)" "positive_float (m_ShutterSpeed cc)"
    "positive_float (m_Aperture cc)" by (simp_all add: float_shot_def)
  note b1 = log2_bounds [OF positive_float_bounds(3,4) [OF p(1)]]
  note b2 = log2_bounds [OF positive_float_bounds(1,2) [OF p(2)]]
  note b3 = log2_bounds [OF positive_float_bounds(1,2) [OF p(3)]]
  show ?thesis
    using b1 b2 b3 by (cases a) (simp_all add: new_GridNode_fields)
qed


lemma square_bound:
  fixes x y :: real
  assumes "abs x \<le> 156" "abs y \<le> 156"
  shows "(y - x) * (y - x) \<le> 97344"
proof -
  have "abs (y - x) \<le> 312" using assms by linarith
  then have "abs (y - x) * abs (y - x) \<le> 312 * 312"
    by (intro mult_mono) simp_all
  then show ?thesis by (simp add: abs_mult_self_eq)
qed

lemma SqDistance_bound:
  assumes "\<And>a. abs (ev a n) \<le> 156" "\<And>a. abs (ev a m) \<le> 156"
  shows "SqDistance n m < float_MaxValue"
proof -
  have "(m_EV_ISOSpeed m - m_EV_ISOSpeed n) * (m_EV_ISOSpeed m - m_EV_ISOSpeed n) \<le> 97344"
    using assms(1) [of X] assms(2) [of X] by (intro square_bound) simp_all
  moreover have "(m_EV_ShutterSpeed m - m_EV_ShutterSpeed n) * (m_EV_ShutterSpeed m - m_EV_ShutterSpeed n) \<le> 97344"
    using assms(1) [of Y] assms(2) [of Y] by (intro square_bound) simp_all
  moreover have "(m_EV_Aperture m - m_EV_Aperture n) * (m_EV_Aperture m - m_EV_Aperture n) \<le> 97344"
    using assms(1) [of Z] assms(2) [of Z] by (intro square_bound) simp_all
  ultimately show ?thesis
    by (simp add: SqDistance_def Let_def float_MaxValue_def)
qed

lemma fold_scan_pair_found:
  "snd best \<noteq> None \<Longrightarrow> snd (fold (scan_pair h p) G best) \<noteq> None"
  by (induction G arbitrary: best) (simp_all add: scan_pair_def Let_def)

lemma find_best_pair_root:
  assumes "G \<noteq> []" "\<forall>u \<in> set G. SqDistance (h ! r) (h ! u) < float_MaxValue"
  shows "\<exists>u \<in> set G. snd (find_best_pair h [r] G) = Some (r, u)"
proof -
  from assms(1) obtain u G' where G: "G = u # G'" by (cases G) auto
  with assms(2) have "snd (scan_pair h r u (float_MaxValue, None)) \<noteq> None"
    by (simp add: scan_pair_def Let_def)
  then have "snd (find_best_pair h [r] G) \<noteq> None"
    by (simp add: find_best_pair_def G fold_scan_pair_found)
  then obtain p v where pv: "snd (find_best_pair h [r] G) = Some (p, v)" by auto
  from find_best_pair_mem [OF this] pv show ?thesis by simp
qed

lemma EV_neighbor_update:
  "m_EV_ISOSpeed (neighbor_update a v x) = m_EV_ISOSpeed x"
  "m_EV_ShutterSpeed (neighbor_update a v x) = m_EV_ShutterSpeed x"
  "m_EV_Aperture (neighbor_update a v x) = m_EV_Aperture x"
  by (cases a, simp_all)+

lemma nth_assign:
  "assign n a i t h ! k =
     (if k = n \<and> n < length h
      then neighbor_update a (slot_update (neighbor a (h ! n)) i (Some t)) (h ! n)
      else h ! k)"
  by (cases "k = n") (simp_all add: assign_def list_update_beyond not_less)

lemma EV_assign:
  "m_EV_ISOSpeed (assign n a i t h ! k) = m_EV_ISOSpeed (h ! k)"
  "m_EV_ShutterSpeed (assign n a i t h ! k) = m_EV_ShutterSpeed (h ! k)"
  "m_EV_Aperture (assign n a i t h ! k) = m_EV_Aperture (h ! k)"
  by (simp_all add: nth_assign EV_neighbor_update)

lemma pair_axis_assign: "pair_axis (assign n a i t h) p u = pair_axis h p u"
  by (simp add: pair_axis_def EV_assign)

lemma SqDistance_assign:
  "SqDistance (assign n a i t h ! p) (assign n a i t h ! u) = SqDistance (h ! p) (h ! u)"
  by (simp add: SqDistance_def EV_assign)

definition target_slot :: "GridNode list \<Rightarrow> nat \<Rightarrow> nat \<Rightarrow> slot_ref" where
  "target_slot h r u = (case pair_axis h r u of (a, LeftRight) \<Rightarrow> (r, a, LeftRight))"

definition contested :: "GridNode list \<Rightarrow> nat \<Rightarrow> nat list \<Rightarrow> bool" where
  "contested h r G \<longleftrightarrow>
     (\<exists>u \<in> set G. slot_of h (target_slot h r u) \<noteq> None)
     \<or> (\<exists>u \<in> set G. \<exists>u' \<in> set G. u \<noteq> u' \<and> pair_axis h r u = pair_axis h r u')"

lemma place_step_contested:
  assumes ps: "place_step h [r] G = Inr (h', G')" and uf: "unplaced_fresh h [r] G"
    and c: "contested h r G"
  shows "contested h' r G'"
proof -
  from ps obtain p u a i where s:
    "p \<in> set [r]" "u \<in> set G" "pair_axis h p u = (a, i)" "slot (neighbor a (h ! p)) i = None"
    "h' = assign u a (1 - i) p (assign p a i u h)" "G' = remove1 u G"
    by (rule place_step_Inr)
  from s(1) have [simp]: "p = r" by simp
  from uf s(2) have d: "r \<noteq> u" "r < length h" "u < length h" "distinct G"
    by (auto simp: unplaced_fresh_def)
  from pair_axis_index [OF s(3)] have i: "i = 0 \<or> i = 1" .
  have pa: "pair_axis h' r v = pair_axis h r v" for v
    by (simp add: s(5) pair_axis_assign)
  have ts: "target_slot h' r v = target_slot h r v" for v
    by (simp add: target_slot_def pa)
  have new: "slot_of h' (r, a, i) \<noteq> None"
    using d i by (auto simp: s(5) slot_of_assign)
  have keep: "slot_of h' x \<noteq> None" if "slot_of h x \<noteq> None" for x
    using place_step_assignments(3) [OF ps uf, of x] that by blast
  have in_G': "v \<in> set G'" if "v \<in> set G" "v \<noteq> u" for v
    using that by (simp add: s(6))
  from c show ?thesis
    unfolding contested_def
  proof
    assume "\<exists>v \<in> set G. slot_of h (target_slot h r v) \<noteq> None"
    then obtain v where v: "v \<in> set G" "slot_of h (target_slot h r v) \<noteq> None" by blast
    have "v \<noteq> u"
    proof
      assume "v = u"
      with v(2) s(3,4) show False by (simp add: target_slot_def slot_of_def)
    qed
    with v keep in_G' have "v \<in> set G'" "slot_of h' (target_slot h' r v) \<noteq> None"
      by (simp_all add: ts)
    then show "(\<exists>u \<in> set G'. slot_of h' (target_slot h' r u) \<noteq> None)
     \<or> (\<exists>u \<in> set G'. \<exists>u' \<in> set G'. u \<noteq> u' \<and> pair_axis h' r u = pair_axis h' r u')"
      by blast
  next
    assume "\<exists>v \<in> set G. \<exists>v' \<in> set G. v \<noteq> v' \<and> pair_axis h r v = pair_axis h r v'"
    then obtain v v' where v: "v \<in> set G" "v' \<in> set G" "v \<noteq> v'"
      "pair_axis h r v = pair_axis h r v'" by blast
    show "(\<exists>u \<in> set G'. slot_of h' (target_slot h' r u) \<noteq> None)
     \<or> (\<exists>u \<in> set G'. \<exists>u' \<in> set G'. u \<noteq> u' \<and> pair_axis h' r u = pair_axis h' r u')"
    proof (cases "v = u \<or> v' = u")
      case False
      with v in_G' have "v \<in> set G'" "v' \<in> set G'" by simp_all
      with v(3,4) show ?thesis by (auto simp: pa)
    next
      case True
      then obtain w where w: "w \<in> set G" "w \<noteq> u" "pair_axis h r w = (a, i)"
        using v s(3) by auto
      then have "w \<in> set G'" "slot_of h' (target_slot h' r w) \<noteq> None"
        using in_G' new by (simp_all add: target_slot_def pa)
      then show ?thesis by blast
    qed
  qed
qed

lemma build_loop_contested:
  "unplaced_fresh h [r] G \<Longrightarrow> contested h r G \<Longrightarrow>
   \<forall>u \<in> set G. SqDistance (h ! r) (h ! u) < float_MaxValue \<Longrightarrow>
   fst (build_loop h [r] G) = Some GridNodeAlreadyHasNeighbor"
proof (induction h "[r]" G rule: build_loop.induct)
  case (1 h G)
  from "1.prems"(2) have G: "G \<noteq> []" by (auto simp: contested_def)
  from find_best_pair_root [OF G "1.prems"(3)] obtain u where
    u: "u \<in> set G" "snd (find_best_pair h [r] G) = Some (r, u)" by blast
  obtain a i where ai: "pair_axis h r u = (a, i)" by (cases "pair_axis h r u")
  show ?case
  proof (cases "slot (neighbor a (h ! r)) i")
    case (Some m)
    then have "slot (neighbor a (h ! r)) i \<noteq> None" by simp
    with u(2) ai have "build_loop h [r] G = (Some GridNodeAlreadyHasNeighbor, h)"
      by (rule build_loop_occupied)
    then show ?thesis by simp
  next
    case None
    with u(2) ai have ps: "place_step h [r] G =
        Inr (assign u a (1 - i) r (assign r a i u h), remove1 u G)"
      by (simp add: place_step_def)
    let ?h' = "assign u a (1 - i) r (assign r a i u h)"
    let ?G' = "remove1 u G"
    have "unplaced_fresh ?h' [r] ?G'"
      using ps "1.prems"(1) by (rule place_step_unplaced_fresh)
    moreover have "contested ?h' r ?G'"
      using ps "1.prems"(1,2) by (rule place_step_contested)
    moreover have "\<forall>v \<in> set ?G'. SqDistance (?h' ! r) (?h' ! v) < float_MaxValue"
      using "1.prems"(3) by (auto simp: SqDistance_assign dest: notin_set_remove1)
    ultimately have "fst (build_loop ?h' [r] ?G') = Some GridNodeAlreadyHasNeighbor"
      using "1.hyps" [OF G ps refl] by blast
    with G ps show ?thesis
      by (simp add: build_loop.simps [of h])
  qed
qed


lemma collect_file_nodes:
  "collect_file f (r, ccs, h, G, l) = (r', ccs', h', G', l') \<Longrightarrow>
   h = map new_GridNode ccs \<Longrightarrow> h' = map new_GridNode ccs'"
  by (cases f) (auto simp: Let_def split: if_splits)

lemma collect_files_nodes:
  "collect_files fs (r, ccs, h, G, l) = (r', ccs', h', G', l') \<Longrightarrow>
   h = map new_GridNode ccs \<Longrightarrow> h' = map new_GridNode ccs'"
proof (induction fs arbitrary: r ccs h G l)
  case Nil
  then show ?case by (auto simp: collect_files_def)
next
  case (Cons f fs)
  obtain r1 ccs1 h1 G1 l1 where st: "collect_file f (r, ccs, h, G, l) = (r1, ccs1, h1, G1, l1)"
    by (metis prod_cases5)
  with Cons.prems(1) have "collect_files fs (r1, ccs1, h1, G1, l1) = (r', ccs', h', G', l')"
    by (simp add: collect_files_def)
  moreover from st Cons.prems(2) have "h1 = map new_GridNode ccs1"
    by (rule collect_file_nodes)
  ultimately show ?case by (rule Cons.IH)
qed

lemma set_DatabasePath_new_loop:
  assumes "set_DatabasePath (Some dir) new_CameraCalibrationDatabase = (e, db)" "Exists dir"
    and "m_CameraClibrations db \<noteq> []"
  obtains r h where "m_RootNode db = Some r" "h = map new_GridNode (m_CameraClibrations db)"
    "unplaced_fresh h [r] (remove1 r [0..<length h])"
    "build_loop h [r] (remove1 r [0..<length h]) = (e, GridNode_heap db)"
proof -
  obtain r0 ccs h G l where c: "collect_files (GetFiles dir) (None, [], [], [], []) = (r0, ccs, h, G, l)"
    by (metis prod_cases5)
  have h: "h = map new_GridNode ccs"
    using c by (rule collect_files_nodes) simp
  from assms c have ccs: "m_CameraClibrations db = ccs" "m_RootNode db = r0"
    by (auto simp: set_DatabasePath_def new_CameraCalibrationDatabase_def Let_def
        split: if_splits option.splits prod.splits)
  with assms(3) h have "h \<noteq> []" by simp
  with collect_files_collected [OF collected_initial, of "GetFiles dir"] c
  obtain r where r: "r0 = Some r" and G: "G = [0..<length h]"
    by (auto simp: collected_def split: option.splits)
  have uf: "unplaced_fresh h [r] (remove1 r [0..<length h])"
    using collected_unplaced_fresh [of "GetFiles dir" r ccs h G l] c r G by simp
  obtain err hf where b: "build_loop h [r] (remove1 r [0..<length h]) = (err, hf)"
    by (cases "build_loop h [r] (remove1 r [0..<length h])")
  from \<open>h \<noteq> []\<close> h have "ccs \<noteq> []" by simp
  with assms(1,2) c r G b have "e = err \<and> GridNode_heap db = hf"
    by (auto simp: set_DatabasePath_def new_CameraCalibrationDatabase_def Let_def)
  with b have "build_loop h [r] (remove1 r [0..<length h]) = (e, GridNode_heap db)"
    by simp
  with that [of r h] ccs r h uf show thesis by simp
qed

lemma same_shot_pair_axis:
  assumes "same_shot c c'"
  shows "choose_axis (x - m_EV_ISOSpeed (new_GridNode c)) (y - m_EV_ShutterSpeed (new_GridNode c))
            (z - m_EV_Aperture (new_GridNode c))
       = choose_axis (x - m_EV_ISOSpeed (new_GridNode c')) (y - m_EV_ShutterSpeed (new_GridNode c'))
            (z - m_EV_Aperture (new_GridNode c'))"
  using assms by (simp add: same_shot_def new_GridNode_fields)

lemma coincident_unplaced_GridNodeAlreadyHasNeighbor:
  assumes "set_DatabasePath (Some dir) new_CameraCalibrationDatabase = (e, db)" "Exists dir"
    and "m_RootNode db = Some r"
    and "i < length (m_CameraClibrations db)" "j < length (m_CameraClibrations db)"
    and "i \<noteq> j" "i \<noteq> r" "j \<noteq> r"
    and "same_shot (m_CameraClibrations db ! i) (m_CameraClibrations db ! j)"
    and "list_all float_shot (m_CameraClibrations db)"
  shows "e = Some GridNodeAlreadyHasNeighbor"
proof -
  let ?ccs = "m_CameraClibrations db"
  from assms(4) have ne: "?ccs \<noteq> []" by auto
  from set_DatabasePath_new_loop [OF assms(1,2) ne] assms(3) obtain h where
    h: "h = map new_GridNode ?ccs" and uf: "unplaced_fresh h [r] (remove1 r [0..<length h])"
    and b: "build_loop h [r] (remove1 r [0..<length h]) = (e, GridNode_heap db)"
    by auto
  let ?G = "remove1 r [0..<length h]"
  from uf have r: "r < length h" by (simp add: unplaced_fresh_def)
  have ij: "i \<in> set ?G" "j \<in> set ?G"
    using assms(4,5,7,8) h by simp_all
  have "pair_axis h r i = pair_axis h r j"
    using assms(4,5,9) r h by (simp add: pair_axis_def same_shot_pair_axis)
  with ij assms(6) have c: "contested h r ?G"
    unfolding contested_def by blast
  have ev: "abs (ev a (h ! k)) \<le> 156" if "k < length h" for a k
    using that assms(10) h by (simp add: list_all_length float_shot_EV)
  have "\<forall>u \<in> set ?G. SqDistance (h ! r) (h ! u) < float_MaxValue"
    using r by (auto intro!: SqDistance_bound ev dest: notin_set_remove1)
  from build_loop_contested [OF uf c this] b show ?thesis by simp
qed

lemma two_coincident_build:
  assumes "length (m_Reflectances c1) = REQUIRED_PROBES_COUNT"
    "length (m_Reflectances c2) = REQUIRED_PROBES_COUNT" "same_shot c1 c2"
  shows "fst (set_DatabasePath (Some (DirectoryInfo True [Some c1, Some c2]))
                new_CameraCalibrationDatabase) = None"
proof -
  let ?n1 = "new_GridNode c1" and ?n2 = "new_GridNode c2"
  have c: "collect_files [Some c1, Some c2] (None, [], [], [], []) =
     (Some 0, [c1, c2], [?n1, ?n2], [0, Suc 0], [])"
    using assms by (simp add: collect_files_def Let_def EV_def new_GridNode_fields same_shot_def)
  have e: "m_EV_ISOSpeed ?n2 = m_EV_ISOSpeed ?n1" "m_EV_ShutterSpeed ?n2 = m_EV_ShutterSpeed ?n1"
    "m_EV_Aperture ?n2 = m_EV_Aperture ?n1" "m_NeighborZ ?n1 = (None, None)"
    using assms(3) by (simp_all add: new_GridNode_fields same_shot_def)
  have "\<exists>h'. place_step [?n1, ?n2] [0] [Suc 0] = Inr (h', [])"
    using e
    by (simp add: place_step_def find_best_pair_def scan_pair_def SqDistance_def Let_def
      float_MaxValue_def pair_axis_def choose_axis_def)
  then obtain h' where "place_step [?n1, ?n2] [0] [Suc 0] = Inr (h', [])" by blast
  then have "build_loop [?n1, ?n2] [0] [Suc 0] = (None, h')"
    by (simp add: build_loop.simps [of _ _ "[Suc 0]"] build_loop.simps [of _ _ "[]"])
  with c show ?thesis
    by (simp add: set_DatabasePath_def new_CameraCalibrationDatabase_def Let_def)
qed

text \<open>
  Claim C7 (amended). Shot parameters are positive single-precision numbers. (1) When the
  loaded calibrations contain two with the same shot parameters (coincident in EV space),
  neither of which is the root, the setter throws the neighbor-already-set exception.
  (2) A directory of just two coincident calibrations is built without exception.
\<close>

theorem two_coincident_samples_GridNodeAlreadyHasNeighbor_unless_root:
  "(set_DatabasePath (Some dir) new_CameraCalibrationDatabase = (e, db) \<and> Exists dir
      \<and> m_RootNode db = Some r
      \<and> i < length (m_CameraClibrations db) \<and> j < length (m_CameraClibrations db)
      \<and> i \<noteq> j \<and> i \<noteq> r \<and> j \<noteq> r
      \<and> same_shot (m_CameraClibrations db ! i) (m_CameraClibrations db ! j)
      \<and> list_all float_shot (m_CameraClibrations db)
     \<longrightarrow> e = Some GridNodeAlreadyHasNeighbor)
   \<and> (length (m_Reflectances c1) = REQUIRED_PROBES_COUNT
      \<and> length (m_Reflectances c2) = REQUIRED_PROBES_COUNT
      \<and> same_shot c1 c2 \<and> float_shot c1 \<and> float_shot c2
     \<longrightarrow> fst (set_DatabasePath (Some (DirectoryInfo True [Some c1, Some c2]))
                new_CameraCalibrationDatabase) = None)"
  using coincident_unplaced_GridNodeAlreadyHasNeighbor [of dir e db r i j]
    two_coincident_build [of c1 c2]
  by blast


definition directory_ABB :: DirectoryInfo where
  "directory_ABB = DirectoryInfo True [Some sample_A, Some sample_B, Some sample_B]"

definition heap_ABB :: "GridNode list" where
  "heap_ABB = [node_A\<lparr>m_NeighborX := (Some 1, None)\<rparr>, node_B\<lparr>m_NeighborX := (None, Some 0)\<rparr>, node_B]"

definition database_ABB :: CameraCalibrationDatabase where
  "database_ABB = snd (set_DatabasePath (Some directory_ABB) new_CameraCalibrationDatabase)"

lemma sample_B_probes: "length (m_Reflectances sample_B) = REQUIRED_PROBES_COUNT"
  by (simp add: sample_B_def REQUIRED_PROBES_COUNT_def)

lemma set_DatabasePath_ABB:
  "set_DatabasePath (Some directory_ABB) new_CameraCalibrationDatabase =
     (Some GridNodeAlreadyHasNeighbor,
      new_CameraCalibrationDatabase
        \<lparr>m_DatabasePath := Some directory_ABB, m_RootNode := Some 0,
         m_CameraClibrations := [sample_A, sample_B, sample_B], GridNode_heap := heap_ABB\<rparr>)"
proof -
  have "\<not> EV node_B < EV node_A"
    by (simp add: EV_def node_A_def node_B_def)
  then have c: "collect_files [Some sample_A, Some sample_B, Some sample_B] (None, [], [], [], [])
     = (Some 0, [sample_A, sample_B, sample_B], [node_A, node_B, node_B], [0, Suc 0, 2], [])"
    by (simp add: collect_files_def Let_def new_GridNode_sample_A new_GridNode_sample_B
        sample_A_probes sample_B_probes)
  have p1: "place_step [node_A, node_B, node_B] [0] [Suc 0, 2] = Inr (heap_ABB, [2])"
    by (simp add: place_step_def find_best_pair_def scan_pair_def SqDistance_def Let_def
      float_MaxValue_def pair_axis_def choose_axis_def assign_def node_A_def node_B_def heap_ABB_def)
  have p2: "place_step heap_ABB [0] [2] = Inl GridNodeAlreadyHasNeighbor"
    by (simp add: place_step_def find_best_pair_def scan_pair_def SqDistance_def Let_def
      float_MaxValue_def pair_axis_def choose_axis_def node_A_def node_B_def heap_ABB_def)
  have b: "build_loop [node_A, node_B, node_B] [0] [Suc 0, 2] = (Some GridNodeAlreadyHasNeighbor, heap_ABB)"
    by (simp add: build_loop.simps [of _ _ "[Suc 0, 2]"] build_loop.simps [of _ _ "[2]"] p1 p2)
  show ?thesis
    by (simp add: set_DatabasePath_def new_CameraCalibrationDatabase_def directory_ABB_def c b Let_def)
qed

lemma float_shot_samples: "float_shot sample_A" "float_shot sample_B"
  by (simp_all add: float_shot_def positive_float_def float_MaxValue_def sample_A_def sample_B_def)

text \<open>
  Witness for C7: the directory of sample A and two copies of sample B, and the directory
  of two copies of sample A.
\<close>

theorem two_coincident_samples_GridNodeAlreadyHasNeighbor_unless_root_witness:
  "set_DatabasePath (Some directory_ABB) new_CameraCalibrationDatabase
      = (Some GridNodeAlreadyHasNeighbor, database_ABB)
   \<and> Exists directory_ABB \<and> m_RootNode database_ABB = Some 0
   \<and> m_CameraClibrations database_ABB = [sample_A, sample_B, sample_B]
   \<and> same_shot sample_B sample_B \<and> list_all float_shot [sample_A, sample_B, sample_B]
   \<and> length (m_Reflectances sample_A) = REQUIRED_PROBES_COUNT
   \<and> same_shot sample_A sample_A \<and> float_shot sample_A
   \<and> fst (set_DatabasePath (Some (DirectoryInfo True [Some sample_A, Some sample_A]))
            new_CameraCalibrationDatabase) = None"
proof -
  let ?e = "fst (set_DatabasePath (Some directory_ABB) new_CameraCalibrationDatabase)"
  have 1: "set_DatabasePath (Some directory_ABB) new_CameraCalibrationDatabase = (?e, database_ABB)"
    by (simp add: database_ABB_def)
  have 2: "Exists directory_ABB" by (simp add: directory_ABB_def)
  have 3: "m_RootNode database_ABB = Some 0"
    "m_CameraClibrations database_ABB = [sample_A, sample_B, sample_B]"
    unfolding database_ABB_def set_DatabasePath_ABB
    by (simp_all add: new_CameraCalibrationDatabase_def)
  have 4: "same_shot sample_B sample_B" "same_shot sample_A sample_A"
    by (simp_all add: same_shot_def)
  have 5: "list_all float_shot [sample_A, sample_B, sample_B]"
    by (simp add: float_shot_samples)
  note T = two_coincident_samples_GridNodeAlreadyHasNeighbor_unless_root
      [of directory_ABB ?e database_ABB 0 1 2 sample_A sample_A]
  from T 1 2 3 4 5 have e: "?e = Some GridNodeAlreadyHasNeighbor"
    by simp
  from T 4 sample_A_probes float_shot_samples(1)
  have t: "fst (set_DatabasePath (Some (DirectoryInfo True [Some sample_A, Some sample_A]))
            new_CameraCalibrationDatabase) = None"
    by simp
  from 1 e have "set_DatabasePath (Some directory_ABB) new_CameraCalibrationDatabase
      = (Some GridNodeAlreadyHasNeighbor, database_ABB)"
    by simp
  with 2 3 4 5 t sample_A_probes float_shot_samples(1) show ?thesis
    by simp
qed

section \<open>Claims C5, C3, C4\<close>

text \<open>
  Claim C5 (amended). The axis chosen for a pair carries the largest absolute delta, by a
  nested comparison with strict tests: X is chosen exactly when its absolute delta is
  strictly larger than both others, Y exactly when its absolute delta is at least that of X
  and strictly larger than that of Z, and Z in every other case. On ties the later axis
  wins: Z over Y over X.
\<close>

theorem choose_axis_largest_delta_later_axis_on_ties:
  "(case fst (choose_axis DeltaX DeltaY DeltaZ) of
      X \<Rightarrow> abs DeltaX | Y \<Rightarrow> abs DeltaY | Z \<Rightarrow> abs DeltaZ)
     = max (abs DeltaX) (max (abs DeltaY) (abs DeltaZ))
   \<and> (fst (choose_axis DeltaX DeltaY DeltaZ) = X
        \<longleftrightarrow> abs DeltaX > abs DeltaY \<and> abs DeltaX > abs DeltaZ)
   \<and> (fst (choose_axis DeltaX DeltaY DeltaZ) = Y
        \<longleftrightarrow> abs DeltaY \<ge> abs DeltaX \<and> abs DeltaY > abs DeltaZ)
   \<and> (fst (choose_axis DeltaX DeltaY DeltaZ) = Z
        \<longleftrightarrow> abs DeltaZ \<ge> abs DeltaX \<and> abs DeltaZ \<ge> abs DeltaY)"
  by (simp add: choose_axis_def)

text \<open>
  Claim C5 as stated fails: with equal absolute deltas on X and Y the choice is Y, on X and
  Z it is Z, on Y and Z it is Z.
\<close>

theorem choose_axis_ties_counterexample:
  "fst (choose_axis 1 1 0) = Y \<and> fst (choose_axis 1 0 1) = Z \<and> fst (choose_axis 0 1 1) = Z"
  by (simp add: choose_axis_def)

text \<open>
  Claim C3, evaluated on the database of the two samples A (ISO 100) and B (ISO 200), both
  at 1 s and f/1.0. Construction succeeds with A as root; the delta on X (placed minus
  unplaced) is negative, and B is stored in slot 0 of A's X neighbors while A is stored in
  slot 1 of B's X neighbors.
\<close>

theorem placement_direction_two_samples:
  "fst (set_DatabasePath (Some directory_AB) new_CameraCalibrationDatabase) = None
   \<and> m_RootNode database_AB = Some 0
   \<and> m_EV_ISOSpeed (GridNode_heap database_AB ! 0) - m_EV_ISOSpeed (GridNode_heap database_AB ! 1) < 0
   \<and> m_NeighborX (GridNode_heap database_AB ! 0) = (Some 1, None)
   \<and> m_NeighborX (GridNode_heap database_AB ! 1) = (None, Some 0)"
  by (simp add: database_AB_fields set_DatabasePath_AB heap_AB_nth node_A_def node_B_def)

text \<open>
  Claim C4, evaluated on the same database. The root is the node of sample A, but slot 1 of
  A's X neighbors and slot 0 of B's X neighbors are empty, \<open>FindStartNode\<close> called as
  \<open>PrepareCalibrationFor 150 1 1\<close> calls it stays on the root, the cell is the root eight
  times, and the first X interpolant is 1.
\<close>

theorem two_sample_scenario_interpolant:
  "m_RootNode database_AB = Some 0
   \<and> m_CameraCalibration (GridNode_heap database_AB ! 0) = sample_A
   \<and> slot (m_NeighborX (GridNode_heap database_AB ! 0)) 1 = None
   \<and> slot (m_NeighborX (GridNode_heap database_AB ! 1)) 0 = None
   \<and> FindStartNode (GridNode_heap database_AB) 0 150 1 1 = Some 0
   \<and> tX_x (compute_interpolants (GridNode_heap database_AB)
             (build_Grid (GridNode_heap database_AB) 0) (Convert2EV 150 1 1)) = 1"
proof -
  have ev0: "m_EV_ISOSpeed (heap_AB ! 0) = 0"
    by (simp add: heap_AB_nth node_A_def)
  have "(0::real) + float_1em6 \<le> 1 / 2"
    by (simp add: float_1em6_def)
  then have "(0::real) + float_1em6 \<le> ln (3 / 2) / ln 2"
    using log2_three_halves by (rule order_trans)
  then have "interpolant (ln (3 / 2) / ln 2) 0 0 = 1"
    by (rule interpolant_degenerate_above)
  then have tx: "tX_x (compute_interpolants heap_AB (build_Grid heap_AB 0) (Convert2EV 150 1 1)) = 1"
    by (simp add: Convert2EV_150 tX_x_compute_interpolants build_Grid_AB ev0)
  have links: "slot (m_NeighborX (heap_AB ! 0)) 1 = None" "slot (m_NeighborX (heap_AB ! 1)) 0 = None"
    "m_CameraCalibration (heap_AB ! 0) = sample_A"
    by (simp_all add: heap_AB_nth node_A_def node_B_def)
  have fs: "FindStartNode heap_AB 0 150 1 1 = Some 0"
    by (rule FindStartNode_AB) simp_all
  show ?thesis
    unfolding database_AB_fields using tx links fs by simp
qed

end
